theory Spec2Isabelle
  imports Complex_Main "HOL-Library.Word"
begin

section \<open>Python values\<close>

text \<open>
  \<^verbatim>\<open>xmind_to_docx.py\<close> walks the dictionaries that \<^verbatim>\<open>json.loads\<close> (or the
  legacy \<^verbatim>\<open>xmind\<close> library) hands it.  A Python \<^verbatim>\<open>str\<close> is a sequence of Unicode
  code points, so a string is a list of code points here, not a list of bytes;
  \<open>ustr\<close> reads an ASCII literal of the source.
\<close>

type_synonym ustring = "nat list"

type_synonym bytes = "8 word list"

definition ustr :: "string \<Rightarrow> ustring" where
  "ustr s = map of_char s"

text \<open>
  The exceptions the script can meet.  \<open>LibError\<close> stands for any other subclass of
  \<^verbatim>\<open>Exception\<close> raised inside a library (zipfile, json, imghdr, python-docx); the
  source never tells them apart: its handlers are all \<^verbatim>\<open>except Exception\<close>.
\<close>

datatype exn = AttributeError | TypeError | KeyError | IndexError | ValueError
  | RecursionError | BadZipFile | LibError

text \<open>
  A float only ever reaches the script as a value to test for truth or to print,
  so it is kept as the rational it denotes, or one of the three special values.
\<close>

datatype pyfloat = Finite rat | Inf bool | NaN

text \<open>
  The values of a parsed JSON document.  A \<^verbatim>\<open>dict\<close> keeps its insertion order
  (\<^verbatim>\<open>.values()\<close> iterates in it), so it is an association list; its keys are
  pairwise distinct in every value Python builds.
\<close>

datatype pyval =
    PyNone
  | PyBool bool
  | PyInt int
  | PyFloat pyfloat
  | PyStr ustring
  | PyList "pyval list"
  | PyDict "(ustring \<times> pyval) list"

text \<open>Truth value testing, as \<^verbatim>\<open>if x:\<close> and \<^verbatim>\<open>x or y\<close> do it.\<close>

fun truthy :: "pyval \<Rightarrow> bool" where
  "truthy PyNone = False"
| "truthy (PyBool b) = b"
| "truthy (PyInt i) = (i \<noteq> 0)"
| "truthy (PyFloat (Finite q)) = (q \<noteq> 0)"
| "truthy (PyFloat (Inf s)) = True"
| "truthy (PyFloat NaN) = True"
| "truthy (PyStr s) = (s \<noteq> [])"
| "truthy (PyList xs) = (xs \<noteq> [])"
| "truthy (PyDict kvs) = (kvs \<noteq> [])"

definition py_or :: "pyval \<Rightarrow> pyval \<Rightarrow> pyval" where
  "py_or x y = (if truthy x then x else y)"

text \<open>
  \<^verbatim>\<open>x.get(key, default)\<close>: only a dict has the method; on any other value the
  attribute lookup raises.
\<close>

fun py_get :: "pyval \<Rightarrow> ustring \<Rightarrow> pyval \<Rightarrow> exn + pyval" where
  "py_get (PyDict kvs) key dflt =
     Inr (case map_of kvs key of None \<Rightarrow> dflt | Some v \<Rightarrow> v)"
| "py_get _ key dflt = Inl AttributeError"

text \<open>\<^verbatim>\<open>x.values()\<close>, in insertion order.\<close>

fun py_values :: "pyval \<Rightarrow> exn + pyval list" where
  "py_values (PyDict kvs) = Inr (map snd kvs)"
| "py_values _ = Inl AttributeError"

text \<open>
  \<^verbatim>\<open>for child in x\<close>: a list gives its elements, a dict its keys, a string its
  characters as one-character strings; nothing else is iterable.
\<close>

fun py_iter :: "pyval \<Rightarrow> exn + pyval list" where
  "py_iter (PyList xs) = Inr xs"
| "py_iter (PyDict kvs) = Inr (map (\<lambda>kv. PyStr (fst kv)) kvs)"
| "py_iter (PyStr s) = Inr (map (\<lambda>c. PyStr [c]) s)"
| "py_iter _ = Inl TypeError"

text \<open>\<^verbatim>\<open>x[0]\<close>, as \<^verbatim>\<open>load_from_content_json\<close> applies it to the parsed document.\<close>

fun py_index0 :: "pyval \<Rightarrow> exn + pyval" where
  "py_index0 (PyList []) = Inl IndexError"
| "py_index0 (PyList (x # xs)) = Inr x"
| "py_index0 (PyStr []) = Inl IndexError"
| "py_index0 (PyStr (c # s)) = Inr (PyStr [c])"
| "py_index0 (PyDict kvs) = Inl KeyError"
| "py_index0 _ = Inl TypeError"

section \<open>Strings\<close>

text \<open>
  \<^verbatim>\<open>str.startswith\<close> and \<^verbatim>\<open>str.endswith\<close> with one argument.
\<close>

definition startswith :: "ustring \<Rightarrow> ustring \<Rightarrow> bool" where
  "startswith s p = (take (length p) s = p)"

definition endswith :: "ustring \<Rightarrow> ustring \<Rightarrow> bool" where
  "endswith s p = (drop (length s - length p) s = p)"

text \<open>
  The code points \<^verbatim>\<open>str.isspace\<close> accepts (CPython's whitespace table), which
  are the ones \<^verbatim>\<open>str.strip()\<close> removes from both ends.
\<close>

definition isspace :: "nat \<Rightarrow> bool" where
  "isspace c =
     ((9 \<le> c \<and> c \<le> 13) \<or> (28 \<le> c \<and> c \<le> 32) \<or> c = 133 \<or> c = 160 \<or> c = 5760
      \<or> (8192 \<le> c \<and> c \<le> 8202) \<or> c = 8232 \<or> c = 8233 \<or> c = 8239 \<or> c = 8287
      \<or> c = 12288)"

definition strip :: "ustring \<Rightarrow> ustring" where
  "strip s = rev (dropWhile isspace (rev (dropWhile isspace s)))"

subsection \<open>Title sanitization (\<^verbatim>\<open>add_topic\<close>, line 100)\<close>

text \<open>
  \<^verbatim>\<open>ch >= " " or ch in "\t\n\r"\<close>: the comparison of one-character strings is the
  comparison of their code points.
\<close>

definition keep_char :: "nat \<Rightarrow> bool" where
  "keep_char ch = (32 \<le> ch \<or> ch = 9 \<or> ch = 10 \<or> ch = 13)"

text \<open>
  \<^verbatim>\<open>"".join(ch for ch in raw_title if ...).strip() or "."\<close>
\<close>

definition sanitize_title :: "ustring \<Rightarrow> ustring" where
  "sanitize_title raw_title =
     (let t = strip (filter keep_char raw_title) in if t = [] then ustr ''.'' else t)"

section \<open>The libraries around the script\<close>

text \<open>
  The document is python-docx's: an append-only sequence of blocks and the core
  property \<^verbatim>\<open>title\<close>.  A heading carries its level and text; a paragraph its text,
  style name and left indent in inches (\<open>None\<close>: the style's own); a picture its
  bytes and width in inches; \<open>FieldParagraph\<close> is a paragraph that holds one
  \<^verbatim>\<open>w:fldSimple\<close> element with the given instruction.
\<close>

datatype block =
    Heading int ustring
  | Paragraph ustring ustring "rat option"
  | Picture bytes rat
  | FieldParagraph ustring

record document =
  core_title :: ustring
  body :: "block list"

type_synonym assets = "ustring \<rightharpoonup> bytes"

text \<open>
  A zip archive, as \<^verbatim>\<open>zipfile.ZipFile\<close> shows it: the member names in archive
  order, each with what reading that member gives (the bytes, or the exception of
  a damaged or encrypted member).
\<close>

type_synonym zipfile = "(ustring \<times> (exn + bytes)) list"

text \<open>
  What the script does not decide itself is a parameter of the model:
  \<^item> \<open>py_str\<close>: \<^verbatim>\<open>str(v)\<close> of a value that is not a string;
  \<^item> \<open>imghdr_what\<close>: \<^verbatim>\<open>imghdr.what(None, h=data)\<close>, a format name, \<^verbatim>\<open>None\<close> or an
    exception;
  \<^item> \<open>left_indent_raises\<close>: whether assigning this left indent to the paragraph
    raises;
  \<^item> \<open>add_picture_raises\<close>: whether python-docx rejects these bytes at this width;
  \<^item> \<open>json_loads\<close>: \<^verbatim>\<open>json.loads\<close>;
  \<^item> \<open>zip_open\<close>: what opening the file at a path as a zip archive gives;
  \<^item> \<open>xmind_lib\<close>: \<open>None\<close> when the \<^verbatim>\<open>xmind\<close> package is not installed, else the
    dictionary \<^verbatim>\<open>xmind.load(path).getPrimarySheet().getData()\<close> or the exception
    on the way to it;
  \<^item> \<open>recursion_limit\<close>: the deepest level at which the interpreter still has a
    frame for a call of \<^verbatim>\<open>add_topic\<close>.  \<^verbatim>\<open>main\<close> starts the walk at level 1, so the
    level of a call is its depth; \<^verbatim>\<open>RecursionError\<close> is taken to arise at the
    recursive call, and only there.

  Floats (the indent, the picture width) stand as the rationals they denote; the
  width is a finite float.
\<close>

record env =
  py_str :: "pyval \<Rightarrow> ustring"
  imghdr_what :: "bytes \<Rightarrow> exn + ustring option"
  left_indent_raises :: "rat \<Rightarrow> bool"
  add_picture_raises :: "bytes \<Rightarrow> rat \<Rightarrow> bool"
  json_loads :: "bytes \<Rightarrow> exn + pyval"
  zip_open :: "ustring \<Rightarrow> exn + zipfile"
  xmind_lib :: "(ustring \<Rightarrow> exn + pyval) option"
  recursion_limit :: int

definition append_block :: "document \<Rightarrow> block \<Rightarrow> document" where
  "append_block d b = d\<lparr>body := body d @ [b]\<rparr>"

text \<open>
  python-docx writes every text through lxml, which raises \<^verbatim>\<open>ValueError\<close> for a
  string that is not XML compatible: one with a character outside the \<^verbatim>\<open>Char\<close>
  production of XML 1.0 (for a lone surrogate the error is \<^verbatim>\<open>UnicodeEncodeError\<close>,
  which is a \<^verbatim>\<open>ValueError\<close>).  Tabs and line ends are accepted.
\<close>

definition xml_char :: "nat \<Rightarrow> bool" where
  "xml_char c =
     (c = 9 \<or> c = 10 \<or> c = 13 \<or> (32 \<le> c \<and> c \<le> 55295) \<or> (57344 \<le> c \<and> c \<le> 65533)
      \<or> (65536 \<le> c \<and> c \<le> 1114111))"

definition xml_compatible :: "ustring \<Rightarrow> bool" where
  "xml_compatible s = list_all xml_char s"

text \<open>
  \<^verbatim>\<open>document.add_paragraph(text, style)\<close> and \<^verbatim>\<open>document.add_heading(text, level)\<close>;
  the heading raises \<^verbatim>\<open>ValueError\<close> for a level outside 0..9 before it adds
  anything.  The script calls both outside every \<^verbatim>\<open>try\<close>: their exception ends the
  run before \<^verbatim>\<open>document.save\<close>, so a raise carries no document (what the failed call
  left in it is never looked at again).
\<close>

definition add_paragraph :: "document \<Rightarrow> ustring \<Rightarrow> ustring \<Rightarrow> exn + document" where
  "add_paragraph d txt style =
     (if xml_compatible txt then Inr (append_block d (Paragraph txt style None))
      else Inl ValueError)"

definition add_heading :: "document \<Rightarrow> ustring \<Rightarrow> int \<Rightarrow> exn + document" where
  "add_heading d txt level =
     (if 0 \<le> level \<and> level \<le> 9
      then (if xml_compatible txt then Inr (append_block d (Heading level txt))
            else Inl ValueError)
      else Inl ValueError)"

text \<open>
  \<^verbatim>\<open>p.paragraph_format.left_indent = v\<close> for the paragraph \<open>p\<close> just added, which is
  the last block of the document.
\<close>

definition set_left_indent :: "env \<Rightarrow> document \<Rightarrow> rat \<Rightarrow> exn + document" where
  "set_left_indent env d v =
     (if left_indent_raises env v then Inl LibError
      else Inr (case rev (body d) of
                  Paragraph txt style i # bs \<Rightarrow>
                    d\<lparr>body := rev bs @ [Paragraph txt style (Some v)]\<rparr>
                | _ \<Rightarrow> d))"

text \<open>
  \<^verbatim>\<open>document.add_picture(stream, width)\<close> first appends an empty paragraph with a
  run and then parses the image into that run.  When the image is rejected the
  exception leaves the empty paragraph behind, in the default style \<^verbatim>\<open>Normal\<close>; the
  script swallows the exception, so the document it goes on with is part of the
  outcome.
\<close>

definition add_picture ::
  "env \<Rightarrow> document \<Rightarrow> bytes \<Rightarrow> rat \<Rightarrow> (exn \<times> document) + document" where
  "add_picture env d data width =
     (if add_picture_raises env data width
      then Inl (LibError, append_block d (Paragraph [] (ustr ''Normal'') None))
      else Inr (append_block d (Picture data width)))"

text \<open>
  \<^verbatim>\<open>document.core_properties.title = value\<close>: python-docx raises \<^verbatim>\<open>ValueError\<close> for
  a value of more than 255 characters, and lxml for one that is not XML compatible.
\<close>

definition set_core_title :: "document \<Rightarrow> ustring \<Rightarrow> exn + document" where
  "set_core_title d v =
     (if 255 < length v \<or> \<not> xml_compatible v then Inl ValueError
      else Inr (d\<lparr>core_title := v\<rparr>))"

text \<open>\<^verbatim>\<open>str(v)\<close>: a string is itself.\<close>

definition str :: "env \<Rightarrow> pyval \<Rightarrow> ustring" where
  "str env v = (case v of PyStr s \<Rightarrow> s | _ \<Rightarrow> py_str env v)"

section \<open>\<^verbatim>\<open>add_toc\<close>\<close>

text \<open>The instruction \<^verbatim>\<open>TOC \o "1-3" \h \z \u\<close>.\<close>

definition toc_instr :: ustring where
  "toc_instr =
     ustr ''TOC '' @ [92] @ ustr ''o '' @ [34] @ ustr ''1-3'' @ [34] @ ustr '' ''
     @ [92] @ ustr ''h '' @ [92] @ ustr ''z '' @ [92] @ ustr ''u''"

definition add_toc :: "document \<Rightarrow> document" where
  "add_toc document = append_block document (FieldParagraph toc_instr)"

section \<open>\<^verbatim>\<open>iter_children\<close>\<close>

text \<open>
  The first loop of the generator: every value of the \<^verbatim>\<open>topics\<close> dict is iterated
  in turn.  \<^verbatim>\<open>add_topic\<close> consumes the generator with \<^verbatim>\<open>list(...)\<close>, so an
  exception anywhere leaves no list.
\<close>

fun iter_groups :: "pyval list \<Rightarrow> exn + pyval list" where
  "iter_groups [] = Inr []"
| "iter_groups (g # groups) =
     (case py_iter g of Inl e \<Rightarrow> Inl e | Inr cs \<Rightarrow>
      case iter_groups groups of Inl e \<Rightarrow> Inl e | Inr rest \<Rightarrow> Inr (cs @ rest))"

definition iter_children :: "pyval \<Rightarrow> exn + pyval list" where
  "iter_children topic =
     (case py_get topic (ustr ''topics'') (PyDict []) of Inl e \<Rightarrow> Inl e | Inr topics \<Rightarrow>
      case py_values topics of Inl e \<Rightarrow> Inl e | Inr groups \<Rightarrow>
      case iter_groups groups of Inl e \<Rightarrow> Inl e | Inr grouped \<Rightarrow>
      case py_get topic (ustr ''children'') (PyDict []) of Inl e \<Rightarrow> Inl e | Inr children \<Rightarrow>
      case py_get children (ustr ''attached'') (PyList []) of Inl e \<Rightarrow> Inl e | Inr a \<Rightarrow>
      case py_iter a of Inl e \<Rightarrow> Inl e | Inr attached \<Rightarrow>
      case py_get children (ustr ''detached'') (PyList []) of Inl e \<Rightarrow> Inl e | Inr d \<Rightarrow>
      case py_iter d of Inl e \<Rightarrow> Inl e | Inr detached \<Rightarrow>
        Inr (grouped @ attached @ detached))"

section \<open>\<^verbatim>\<open>add_topic\<close>\<close>

text \<open>Lines 99-100: the title handed to the sink.\<close>

definition topic_title :: "env \<Rightarrow> pyval \<Rightarrow> exn + ustring" where
  "topic_title env topic =
     (case py_get topic (ustr ''title'') (PyStr []) of Inl e \<Rightarrow> Inl e | Inr v \<Rightarrow>
        Inr (sanitize_title (str env (py_or v (PyStr [])))))"

text \<open>
  Lines 104-112: the heading, or the bulleted paragraph whose indent is set inside a
  \<^verbatim>\<open>try\<close> that swallows every exception.
\<close>

definition emit_text :: "env \<Rightarrow> document \<Rightarrow> ustring \<Rightarrow> bool \<Rightarrow> int \<Rightarrow> exn + document" where
  "emit_text env document title is_leaf level =
     (if level = 1 \<or> \<not> is_leaf then add_heading document title (min level 9)
      else
        (case add_paragraph document title (ustr ''List Bullet'') of
           Inl e \<Rightarrow> Inl e
         | Inr p \<Rightarrow>
             (case set_left_indent env p (1 / 4 * of_int (max (level - 1) 0)) of
                Inl e \<Rightarrow> Inr p
              | Inr p' \<Rightarrow> Inr p')))"

text \<open>
  Lines 114-129.  \<^verbatim>\<open>assets.get(src)\<close> hashes its key, so a list or a dict raises
  \<^verbatim>\<open>TypeError\<close>; a key that is not a string is in no resource mapping.
\<close>

definition supported_kinds :: "ustring list" where
  "supported_kinds = [ustr ''png'', ustr ''jpeg'', ustr ''bmp'', ustr ''gif'']"

fun assets_get :: "assets \<Rightarrow> pyval \<Rightarrow> exn + bytes option" where
  "assets_get assets (PyStr s) = Inr (assets s)"
| "assets_get assets (PyList xs) = Inl TypeError"
| "assets_get assets (PyDict kvs) = Inl TypeError"
| "assets_get assets _ = Inr None"

text \<open>
  Lines 120-129: the \<^verbatim>\<open>try\<close> block; every exception in it is passed over, and the
  walk goes on with the document as the failed call left it.
\<close>

definition embed :: "env \<Rightarrow> document \<Rightarrow> bytes \<Rightarrow> rat \<Rightarrow> document" where
  "embed env document data img_width_inch =
     (case imghdr_what env data of
        Inl e \<Rightarrow> document
      | Inr kind \<Rightarrow>
          if kind \<in> set (map Some supported_kinds)
          then (case add_picture env document data img_width_inch of
                  Inl (e, d) \<Rightarrow> d
                | Inr d \<Rightarrow> d)
          else document)"

definition insert_image :: "env \<Rightarrow> document \<Rightarrow> pyval \<Rightarrow> assets \<Rightarrow> rat \<Rightarrow> exn + document" where
  "insert_image env document topic assets img_width_inch =
     (case py_get topic (ustr ''image'') PyNone of Inl e \<Rightarrow> Inl e | Inr v \<Rightarrow>
      case py_get (py_or v (PyDict [])) (ustr ''src'') PyNone of Inl e \<Rightarrow> Inl e | Inr src \<Rightarrow>
        if truthy src
        then (case assets_get assets src of
                Inl e \<Rightarrow> Inl e
              | Inr None \<Rightarrow> Inr document
              | Inr (Some data) \<Rightarrow>
                  if data \<noteq> [] then Inr (embed env document data img_width_inch)
                  else Inr document)
        else Inr document)"

text \<open>
  \<^verbatim>\<open>for child in children: ...\<close> over a body that may raise: the first exception
  ends the loop.
\<close>

fun for_each :: "('a \<Rightarrow> 's \<Rightarrow> exn + 's) \<Rightarrow> 'a list \<Rightarrow> 's \<Rightarrow> exn + 's" where
  "for_each f [] s = Inr s"
| "for_each f (x # xs) s = (case f x s of Inl e \<Rightarrow> Inl e | Inr s' \<Rightarrow> for_each f xs s')"

lemma for_each_cong [fundef_cong]:
  "xs = ys \<Longrightarrow> s = s' \<Longrightarrow> (\<And>x d. x \<in> set ys \<Longrightarrow> f x d = g x d)
   \<Longrightarrow> for_each f xs s = for_each g ys s'"
  by (induction ys arbitrary: xs s s') (auto split: sum.splits)

subsection \<open>Every child is smaller than its parent\<close>

lemma size_dict_value:
  "(k, v) \<in> set kvs \<Longrightarrow> size v < Suc (size_list (size_prod (\<lambda>x. 0) size) kvs)"
  by (induction kvs) auto

lemma size_list_elem: "v \<in> set vs \<Longrightarrow> size v < Suc (size_list size vs)"
  by (induction vs) auto

lemma py_iter_size: "py_iter g = Inr xs \<Longrightarrow> x \<in> set xs \<Longrightarrow> size x \<le> size g"
  by (cases g) (auto dest: size_list_elem less_imp_le)

lemma py_get_size: "py_get x key dflt = Inr v \<Longrightarrow> v = dflt \<or> size v < size x"
  by (cases x) (auto split: option.splits dest!: map_of_SomeD size_dict_value)

lemma py_values_size: "py_values x = Inr gs \<Longrightarrow> g \<in> set gs \<Longrightarrow> size g < size x"
proof (cases x)
  case (PyDict kvs)
  assume "py_values x = Inr gs" and "g \<in> set gs"
  with PyDict obtain k where "(k, g) \<in> set kvs"
    by auto
  then have "size g < Suc (size_list (size_prod (\<lambda>x. 0) size) kvs)"
    by (rule size_dict_value)
  with PyDict show ?thesis
    by simp
qed auto

lemma iter_groups_size:
  "iter_groups gs = Inr cs \<Longrightarrow> c \<in> set cs \<Longrightarrow> \<exists>g \<in> set gs. size c \<le> size g"
  by (induction gs arbitrary: cs) (auto split: sum.splits dest: py_iter_size)

lemma grouped_size:
  assumes "py_values x = Inr gs" and "iter_groups gs = Inr cs" and "c \<in> set cs"
  shows "size c < size x"
proof -
  from assms(2,3) obtain g where "g \<in> set gs" and "size c \<le> size g"
    by (blast dest: iter_groups_size)
  with assms(1) show ?thesis
    by (auto dest: py_values_size)
qed

lemma listed_size:
  assumes "py_get x key (PyList []) = Inr a" and "py_iter a = Inr xs" and "c \<in> set xs"
  shows "size c < size x"
proof -
  from assms(2,3) have "a \<noteq> PyList []" and "size c \<le> size a"
    by (auto dest: py_iter_size)
  with assms(1) show ?thesis
    by (auto dest: py_get_size)
qed

lemma iter_children_size:
  assumes "iter_children topic = Inr cs" and "c \<in> set cs"
  shows "size c < size topic"
proof -
  from assms(1) obtain topics groups grouped children a attached d detached where
    t: "py_get topic (ustr ''topics'') (PyDict []) = Inr topics"
    and g: "py_values topics = Inr groups" "iter_groups groups = Inr grouped"
    and ch: "py_get topic (ustr ''children'') (PyDict []) = Inr children"
    and a: "py_get children (ustr ''attached'') (PyList []) = Inr a" "py_iter a = Inr attached"
    and d: "py_get children (ustr ''detached'') (PyList []) = Inr d" "py_iter d = Inr detached"
    and cs: "cs = grouped @ attached @ detached"
    by (auto simp: iter_children_def split: sum.splits)
  from assms(2) cs consider "c \<in> set grouped" | "c \<in> set attached" | "c \<in> set detached"
    by auto
  then show ?thesis
  proof cases
    case 1
    with g have "size c < size topics" by (rule grouped_size)
    moreover from 1 g have "topics \<noteq> PyDict []" by auto
    ultimately show ?thesis using t by (auto dest: py_get_size)
  next
    case 2
    with a have "size c < size children" by (rule listed_size)
    moreover from 2 a have "children \<noteq> PyDict []" by auto
    ultimately show ?thesis using ch by (auto dest: py_get_size)
  next
    case 3
    with d have "size c < size children" by (rule listed_size)
    moreover from 3 d have "children \<noteq> PyDict []" by auto
    ultimately show ?thesis using ch by (auto dest: py_get_size)
  qed
qed

subsection \<open>The recursion\<close>

text \<open>
  The first line of \<^verbatim>\<open>add_topic\<close> calls \<^verbatim>\<open>topic.get\<close>, which only a dict has: on
  any other value the call raises \<^verbatim>\<open>AttributeError\<close> before anything is emitted.
  The call on a child is at \<open>level + 1\<close>; beyond the interpreter's limit it raises
  \<^verbatim>\<open>RecursionError\<close> instead of running.
\<close>

function (sequential) add_topic ::
  "env \<Rightarrow> document \<Rightarrow> pyval \<Rightarrow> assets \<Rightarrow> int \<Rightarrow> rat \<Rightarrow> exn + document" where
  "add_topic env document (PyDict kvs) assets level img_width_inch =
     (case topic_title env (PyDict kvs) of Inl e \<Rightarrow> Inl e | Inr title \<Rightarrow>
      case iter_children (PyDict kvs) of Inl e \<Rightarrow> Inl e | Inr children \<Rightarrow>
      case emit_text env document title (length children = 0) level of
        Inl e \<Rightarrow> Inl e | Inr d1 \<Rightarrow>
      case insert_image env d1 (PyDict kvs) assets img_width_inch of
        Inl e \<Rightarrow> Inl e | Inr d2 \<Rightarrow>
        for_each
          (\<lambda>child d.
             if recursion_limit env < level + 1 then Inl RecursionError
             else add_topic env d child assets (level + 1) img_width_inch)
          children d2)"
| "add_topic env document _ assets level img_width_inch = Inl AttributeError"
  by pat_completeness auto
termination
  by (relation "measure (\<lambda>(env, document, topic, assets, level, w). size topic)")
    (auto dest: iter_children_size)

section \<open>\<^verbatim>\<open>extract_resources\<close>\<close>

text \<open>
  \<^verbatim>\<open>zf.namelist()\<close> lists the member names in archive order; \<^verbatim>\<open>zf.read(name)\<close>
  reads the last member of that name (an archive may repeat a name).
\<close>

definition namelist :: "zipfile \<Rightarrow> ustring list" where
  "namelist zf = map fst zf"

definition zf_read :: "zipfile \<Rightarrow> ustring \<Rightarrow> exn + bytes" where
  "zf_read zf name = (case map_of (rev zf) name of None \<Rightarrow> Inl KeyError | Some r \<Rightarrow> r)"

text \<open>The body of the loop over the names; \<^verbatim>\<open>continue\<close> leaves the mapping as it is.\<close>

definition extract_step :: "zipfile \<Rightarrow> ustring \<Rightarrow> assets \<Rightarrow> exn + assets" where
  "extract_step zf name mapping =
     (if \<not> startswith name (ustr ''resources/'') then Inr mapping
      else if endswith name (ustr ''/'') then Inr mapping
      else case zf_read zf name of
             Inl e \<Rightarrow> Inl e
           | Inr data \<Rightarrow> Inr (mapping(name \<mapsto> data, ustr ''xap:'' @ name \<mapsto> data)))"

definition extract_resources :: "zipfile \<Rightarrow> exn + assets" where
  "extract_resources zf = for_each (extract_step zf) (namelist zf) Map.empty"

text \<open>
  A resource is stored when both its path and the aliased path give the bytes that
  reading the member gives.
\<close>

definition stored :: "zipfile \<Rightarrow> assets \<Rightarrow> ustring \<Rightarrow> bool" where
  "stored zf mapping p \<longleftrightarrow>
     (\<exists>data. zf_read zf p = Inr data \<and> mapping p = Some data
             \<and> mapping (ustr ''xap:'' @ p) = Some data)"

section \<open>\<^verbatim>\<open>load_from_content_json\<close> and \<^verbatim>\<open>load_from_xmind_lib\<close>\<close>

text \<open>
  The body of the \<^verbatim>\<open>try\<close>, where every call may raise, and then the function: its
  handler turns every exception into the pair \<^verbatim>\<open>(None, {})\<close>.
\<close>

definition load_body :: "env \<Rightarrow> ustring \<Rightarrow> exn + (pyval \<times> assets)" where
  "load_body env path =
     (case zip_open env path of Inl e \<Rightarrow> Inl e | Inr zf \<Rightarrow>
      case filter (\<lambda>n. endswith n (ustr ''content.json'')) (namelist zf) of
        [] \<Rightarrow> Inr (PyNone, Map.empty)
      | candidate # others \<Rightarrow>
          (case extract_resources zf of Inl e \<Rightarrow> Inl e | Inr assets \<Rightarrow>
           case zf_read zf candidate of Inl e \<Rightarrow> Inl e | Inr data \<Rightarrow>
           case json_loads env data of Inl e \<Rightarrow> Inl e | Inr doc \<Rightarrow>
           case py_index0 doc of Inl e \<Rightarrow> Inl e | Inr sheet \<Rightarrow>
           case py_get sheet (ustr ''rootTopic'') PyNone of Inl e \<Rightarrow> Inl e | Inr root_topic \<Rightarrow>
             Inr (root_topic, assets)))"

definition load_from_content_json :: "env \<Rightarrow> ustring \<Rightarrow> exn + (pyval \<times> assets)" where
  "load_from_content_json env path =
     (case load_body env path of Inl e \<Rightarrow> Inr (PyNone, Map.empty) | Inr r \<Rightarrow> Inr r)"

definition load_from_xmind_lib :: "env \<Rightarrow> ustring \<Rightarrow> exn + (pyval \<times> assets)" where
  "load_from_xmind_lib env path =
     (case xmind_lib env of
        None \<Rightarrow> Inr (PyNone, Map.empty)
      | Some load \<Rightarrow>
          (case load path of Inl e \<Rightarrow> Inl e | Inr dictSheet \<Rightarrow>
           case py_get dictSheet (ustr ''topic'') PyNone of Inl e \<Rightarrow> Inl e | Inr topic \<Rightarrow>
             Inr (topic, Map.empty)))"

section \<open>\<^verbatim>\<open>main\<close>\<close>

text \<open>
  Lines 166-182 of \<^verbatim>\<open>main\<close>, from the parsed arguments on: the run ends in
  \<^verbatim>\<open>sys.exit(1)\<close>, in an exception nobody catches, or with the document handed to
  \<^verbatim>\<open>document.save\<close>.
\<close>

datatype outcome = Exit int | Saved document

definition new_document :: document where
  "new_document = \<lparr>core_title = [], body = []\<rparr>"

text \<open>Lines 167-169: the structured format first, the legacy library when it gives no root.\<close>

definition parse_source :: "env \<Rightarrow> ustring \<Rightarrow> exn + (pyval \<times> assets)" where
  "parse_source env source_path =
     (case load_from_content_json env source_path of
        Inl e \<Rightarrow> Inl e
      | Inr (root_topic, assets) \<Rightarrow>
          if root_topic = PyNone then load_from_xmind_lib env source_path
          else Inr (root_topic, assets))"

text \<open>Lines 175-179: the document, its title, the table of contents and the walk.\<close>

definition build_document ::
  "env \<Rightarrow> bool \<Rightarrow> pyval \<Rightarrow> assets \<Rightarrow> rat \<Rightarrow> exn + document" where
  "build_document env no_toc root_topic assets img_width =
     (case py_get root_topic (ustr ''title'') (PyStr (ustr ''XMind'')) of
        Inl e \<Rightarrow> Inl e
      | Inr t \<Rightarrow>
          (case set_core_title new_document (str env t) of
             Inl e \<Rightarrow> Inl e
           | Inr titled \<Rightarrow>
               (let document = (if \<not> no_toc then add_toc titled else titled)
                in add_topic env document root_topic assets 1 (max img_width (1 / 10)))))"

definition main :: "env \<Rightarrow> ustring \<Rightarrow> bool \<Rightarrow> rat \<Rightarrow> exn + outcome" where
  "main env source_path no_toc img_width =
     (case parse_source env source_path of
        Inl e \<Rightarrow> Inl e
      | Inr (root_topic, assets) \<Rightarrow>
          if root_topic = PyNone then Inr (Exit 1)
          else (case build_document env no_toc root_topic assets img_width of
                  Inl e \<Rightarrow> Inl e
                | Inr d \<Rightarrow> Inr (Saved d)))"

section \<open>The tree under a topic\<close>

text \<open>
  The children \<^verbatim>\<open>add_topic\<close> recurses into, and the nodes of the tree they span:
  the topic itself and the nodes under each child, in the order of the walk.
\<close>

definition children_of :: "pyval \<Rightarrow> pyval list" where
  "children_of topic = (case iter_children topic of Inl e \<Rightarrow> [] | Inr cs \<Rightarrow> cs)"

lemma children_of_size: "c \<in> set (children_of topic) \<Longrightarrow> size c < size topic"
  by (cases "iter_children topic") (auto simp: children_of_def dest: iter_children_size)

function (sequential) topic_nodes :: "pyval \<Rightarrow> pyval list" where
  "topic_nodes (PyDict kvs) =
     PyDict kvs # concat (map topic_nodes (children_of (PyDict kvs)))"
| "topic_nodes v = [v]"
  by pat_completeness auto
termination
  by (relation "measure size") (auto dest: children_of_size)

section \<open>What a walk appends\<close>

text \<open>
  The document only grows at its end, so a call of \<^verbatim>\<open>add_topic\<close> is described by
  the blocks it appends.  \<open>text_block\<close> is the block of lines 104-112,
  \<open>picture_blocks\<close> what lines 114-129 append, and \<open>project\<close> the blocks of a whole
  walk; \<open>add_topic_project\<close> below proves that \<^verbatim>\<open>add_topic\<close> appends exactly these.
\<close>

fun is_text :: "block \<Rightarrow> bool" where
  "is_text (Heading level txt) = True"
| "is_text (Paragraph txt style indent) = True"
| "is_text (Picture data width) = False"
| "is_text (FieldParagraph instr) = False"

fun is_picture :: "block \<Rightarrow> bool" where
  "is_picture (Picture data width) = True"
| "is_picture _ = False"

fun is_field :: "block \<Rightarrow> bool" where
  "is_field (FieldParagraph instr) = True"
| "is_field _ = False"

text \<open>The blocks the walk writes for a node: a heading, or a bulleted paragraph.\<close>

fun is_node_block :: "block \<Rightarrow> bool" where
  "is_node_block (Heading level txt) = True"
| "is_node_block (Paragraph txt style indent) = (style = ustr ''List Bullet'')"
| "is_node_block _ = False"

fun block_text :: "block \<Rightarrow> ustring option" where
  "block_text (Heading level txt) = Some txt"
| "block_text (Paragraph txt style indent) = Some txt"
| "block_text _ = None"

definition append_blocks :: "document \<Rightarrow> block list \<Rightarrow> document" where
  "append_blocks d bs = d\<lparr>body := body d @ bs\<rparr>"

definition text_block :: "env \<Rightarrow> ustring \<Rightarrow> bool \<Rightarrow> int \<Rightarrow> exn + block" where
  "text_block env title is_leaf level =
     (if \<not> xml_compatible title then Inl ValueError
      else if level = 1 \<or> \<not> is_leaf
      then (if 0 \<le> level then Inr (Heading (min level 9) title) else Inl ValueError)
      else Inr (Paragraph title (ustr ''List Bullet'')
                 (if left_indent_raises env (1 / 4 * of_int (max (level - 1) 0)) then None
                  else Some (1 / 4 * of_int (max (level - 1) 0)))))"

definition picture_blocks :: "env \<Rightarrow> pyval \<Rightarrow> assets \<Rightarrow> rat \<Rightarrow> exn + block list" where
  "picture_blocks env topic assets img_width_inch =
     map_sum id body (insert_image env new_document topic assets img_width_inch)"

fun collect :: "('a \<Rightarrow> exn + 'b list) \<Rightarrow> 'a list \<Rightarrow> exn + 'b list" where
  "collect f [] = Inr []"
| "collect f (x # xs) =
     (case f x of Inl e \<Rightarrow> Inl e | Inr ys \<Rightarrow>
      case collect f xs of Inl e \<Rightarrow> Inl e | Inr rest \<Rightarrow> Inr (ys @ rest))"

lemma collect_cong [fundef_cong]:
  "xs = ys \<Longrightarrow> (\<And>x. x \<in> set ys \<Longrightarrow> f x = g x) \<Longrightarrow> collect f xs = collect g ys"
  by (induction ys arbitrary: xs) (auto split: sum.splits)

function (sequential) project :: "env \<Rightarrow> pyval \<Rightarrow> assets \<Rightarrow> int \<Rightarrow> rat \<Rightarrow> exn + block list" where
  "project env (PyDict kvs) assets level img_width_inch =
     (case topic_title env (PyDict kvs) of Inl e \<Rightarrow> Inl e | Inr title \<Rightarrow>
      case iter_children (PyDict kvs) of Inl e \<Rightarrow> Inl e | Inr children \<Rightarrow>
      case text_block env title (children = []) level of Inl e \<Rightarrow> Inl e | Inr b \<Rightarrow>
      case picture_blocks env (PyDict kvs) assets img_width_inch of
        Inl e \<Rightarrow> Inl e | Inr ps \<Rightarrow>
      case collect
             (\<lambda>child.
                if recursion_limit env < level + 1 then Inl RecursionError
                else project env child assets (level + 1) img_width_inch)
             children of
        Inl e \<Rightarrow> Inl e | Inr rest \<Rightarrow> Inr (b # ps @ rest))"
| "project env _ assets level img_width_inch = Inl AttributeError"
  by pat_completeness auto
termination
  by (relation "measure (\<lambda>(env, topic, assets, level, w). size topic)")
    (auto dest: iter_children_size)

text \<open>The blocks of a walk that completes.\<close>

definition emitted :: "env \<Rightarrow> pyval \<Rightarrow> assets \<Rightarrow> int \<Rightarrow> rat \<Rightarrow> block list" where
  "emitted env topic assets level img_width_inch =
     (case project env topic assets level img_width_inch of Inl e \<Rightarrow> [] | Inr bs \<Rightarrow> bs)"

text \<open>
  A topic the walk gets through: a dict whose children can be listed, whose image
  field (when it holds anything) is a dict, and whose image source can be looked up
  in a dict; and the same for every node under it.
\<close>

fun hashable :: "pyval \<Rightarrow> bool" where
  "hashable (PyList xs) = False"
| "hashable (PyDict kvs) = False"
| "hashable _ = True"

definition image_ok :: "pyval \<Rightarrow> bool" where
  "image_ok topic =
     (case py_get topic (ustr ''image'') PyNone of Inl e \<Rightarrow> False | Inr v \<Rightarrow>
      case py_get (py_or v (PyDict [])) (ustr ''src'') PyNone of Inl e \<Rightarrow> False | Inr src \<Rightarrow>
        if truthy src then hashable src else True)"

definition node_ok :: "pyval \<Rightarrow> bool" where
  "node_ok topic =
     (case iter_children topic of Inl e \<Rightarrow> False | Inr cs \<Rightarrow> image_ok topic)"

definition wf_topic :: "pyval \<Rightarrow> bool" where
  "wf_topic topic = list_all node_ok (topic_nodes topic)"

text \<open>
  A topic the walk gets through from a given level: such a node whose title the sink
  accepts, whose children are within the interpreter's limit, and the same for
  every child one level down.
\<close>

definition title_ok :: "env \<Rightarrow> pyval \<Rightarrow> bool" where
  "title_ok env topic =
     (case topic_title env topic of Inl e \<Rightarrow> False | Inr title \<Rightarrow> xml_compatible title)"

function (sequential) walkable :: "env \<Rightarrow> int \<Rightarrow> pyval \<Rightarrow> bool" where
  "walkable env level (PyDict kvs) =
     (node_ok (PyDict kvs) \<and> title_ok env (PyDict kvs)
      \<and> list_all (\<lambda>child. level + 1 \<le> recursion_limit env \<and> walkable env (level + 1) child)
            (children_of (PyDict kvs)))"
| "walkable env level v = False"
  by pat_completeness auto
termination
  by (relation "measure (\<lambda>(env, level, topic). size topic)") (auto dest: children_of_size)

section \<open>A worked input\<close>

text \<open>
  An environment in which no library call raises and no file opens; the tree of the
  specification's end-to-end scenario, in the attached/detached shape (root \<^verbatim>\<open>A\<close>
  with the leaf \<^verbatim>\<open>B\<close> and the branch \<^verbatim>\<open>C\<close>, which has the leaf \<^verbatim>\<open>D\<close>); and a
  childless topic whose image is in no resource mapping.
\<close>

definition example_env :: env where
  "example_env = \<lparr>py_str = (\<lambda>v. []), imghdr_what = (\<lambda>data. Inr None),
     left_indent_raises = (\<lambda>v. False), add_picture_raises = (\<lambda>data w. False),
     json_loads = (\<lambda>data. Inl ValueError), zip_open = (\<lambda>path. Inl BadZipFile),
     xmind_lib = None, recursion_limit = 1000\<rparr>"

definition leaf :: "string \<Rightarrow> pyval" where
  "leaf t = PyDict [(ustr ''title'', PyStr (ustr t))]"

definition branch :: "string \<Rightarrow> pyval list \<Rightarrow> pyval" where
  "branch t cs = PyDict [(ustr ''title'', PyStr (ustr t)),
     (ustr ''children'', PyDict [(ustr ''attached'', PyList cs)])]"

definition example_root :: "(ustring \<times> pyval) list" where
  "example_root =
     [(ustr ''title'', PyStr (ustr ''A'')),
      (ustr ''children'',
       PyDict [(ustr ''attached'', PyList [leaf ''B'', branch ''C'' [leaf ''D'']])])]"

definition pictured :: "(ustring \<times> pyval) list" where
  "pictured =
     [(ustr ''title'', PyStr (ustr ''P'')),
      (ustr ''image'', PyDict [(ustr ''src'', PyStr (ustr ''xap:resources/p.png''))])]"

text \<open>
  A topic that has children in both shapes, and an archive with a directory entry
  and one resource.
\<close>

definition both_shapes :: "(ustring \<times> pyval) list" where
  "both_shapes =
     [(ustr ''topics'',
       PyDict [(ustr ''g1'', PyList [leaf ''X'']),
               (ustr ''g2'', PyList [leaf ''Y'', leaf ''Z''])]),
      (ustr ''children'',
       PyDict [(ustr ''attached'', PyList [leaf ''B'']),
               (ustr ''detached'', PyList [leaf ''E''])])]"

definition example_zip :: zipfile where
  "example_zip =
     [(ustr ''content.json'', Inr [91, 93]),
      (ustr ''resources/'', Inr []),
      (ustr ''resources/a.png'', Inr [137, 80, 78, 71])]"

text \<open>An environment in which the file opens as that archive and parses to the tree.\<close>

definition reading_env :: env where
  "reading_env =
     example_env\<lparr>zip_open := (\<lambda>path. Inr example_zip),
       json_loads := (\<lambda>data. Inr (PyList [PyDict [(ustr ''rootTopic'', PyDict example_root)]]))\<rparr>"

text \<open>
  An environment in which every image sniffs as png and python-docx rejects it, and
  a resource mapping that holds the image of the pictured topic; a topic whose title
  is the one character U+FFFF, which line 100 keeps; and a chain of \<open>n + 1\<close> topics,
  each the only child of the one before.  The limit of \<open>example_env\<close> is the
  interpreter's default of 1000 frames, more than the walk ever has for itself.
\<close>

definition rejecting_env :: env where
  "rejecting_env =
     example_env\<lparr>imghdr_what := (\<lambda>data. Inr (Some (ustr ''png''))),
       add_picture_raises := (\<lambda>data w. True)\<rparr>"

definition png_signature :: bytes where
  "png_signature = [137, 80, 78, 71, 13, 10, 26, 10]"

definition pictured_assets :: assets where
  "pictured_assets = [ustr ''xap:resources/p.png'' \<mapsto> png_signature]"

definition unwritable :: "(ustring \<times> pyval) list" where
  "unwritable = [(ustr ''title'', PyStr [65535])]"

primrec chain :: "nat \<Rightarrow> pyval" where
  "chain 0 = leaf ''x''"
| "chain (Suc n) = branch ''x'' [chain n]"

section \<open>Title sanitization\<close>

lemma strip_subset: "set (strip s) \<subseteq> set s"
  unfolding strip_def by (auto dest!: set_dropWhileD)

lemma strip_ends:
  assumes "strip s \<noteq> []"
  shows "\<not> isspace (hd (strip s))" and "\<not> isspace (last (strip s))"
proof -
  define u where "u = dropWhile isspace s"
  define v where "v = dropWhile isspace (rev u)"
  have t: "strip s = rev v" by (simp add: strip_def u_def v_def)
  with assms have v: "v \<noteq> []" by simp
  then have "\<not> isspace (hd v)" unfolding v_def by (rule hd_dropWhile)
  with v t show "\<not> isspace (last (strip s))" by (simp add: last_rev)
  from v have u: "u \<noteq> []" by (auto simp: v_def)
  then have hu: "\<not> isspace (hd u)" unfolding u_def by (rule hd_dropWhile)
  obtain w where "rev u = w @ v" 
    using takeWhile_dropWhile_id[of isspace "rev u"] unfolding v_def by metis
  then have "last (rev u) = last v" using v by simp
  with u have "last v = hd u" by (simp add: last_rev)
  with hu v t show "\<not> isspace (hd (strip s))" by (simp add: hd_rev)
qed

lemma strip_fixed:
  assumes "s = [] \<or> (\<not> isspace (hd s) \<and> \<not> isspace (last s))"
  shows "strip s = s"
proof (cases "s = []")
  case True
  then show ?thesis by (simp add: strip_def)
next
  case False
  with assms have h: "\<not> isspace (hd s)" and l: "\<not> isspace (last s)" by auto
  from False h have 1: "dropWhile isspace s = s" by (cases s) auto
  from False l have 2: "dropWhile isspace (rev s) = rev s"
    by (cases "rev s") (auto simp: last_rev hd_rev dest: arg_cong[where f=hd])
  show ?thesis by (simp add: strip_def 1 2)
qed

lemma strip_idem: "strip (strip s) = strip s"
  by (rule strip_fixed) (use strip_ends[of s] in blast)

lemma strip_all_space: "\<forall>c \<in> set s. isspace c \<Longrightarrow> strip s = []"
  by (auto simp: strip_def dropWhile_eq_Nil_conv dest: set_dropWhileD)

lemma filter_keep_strip: "filter keep_char (strip (filter keep_char s)) = strip (filter keep_char s)"
  using strip_subset[of "filter keep_char s"] by (auto simp: filter_id_conv)

lemma period_kept: "strip (filter keep_char (ustr ''.'')) = ustr ''.''"
  by (simp add: ustr_def keep_char_def strip_def isspace_def)

lemma period_nonempty: "ustr ''.'' \<noteq> []"
  by (simp add: ustr_def)

lemma sanitize_title_nonempty: "sanitize_title s \<noteq> []"
  by (simp add: sanitize_title_def Let_def period_nonempty)

lemma sanitize_title_idem: "sanitize_title (sanitize_title s) = sanitize_title s"
proof (cases "strip (filter keep_char s) = []")
  case True
  then show ?thesis by (simp add: sanitize_title_def period_kept period_nonempty)
next
  case False
  then show ?thesis by (simp add: sanitize_title_def filter_keep_strip strip_idem)
qed

lemma sanitize_title_blank:
  assumes "\<forall>c \<in> set s. c < 32 \<or> isspace c"
  shows "sanitize_title s = ustr ''.''"
proof -
  have "\<forall>c \<in> set (filter keep_char s). isspace c"
    using assms by (auto simp: keep_char_def isspace_def)
  then have "strip (filter keep_char s) = []" by (rule strip_all_space)
  then show ?thesis by (simp add: sanitize_title_def)
qed

section \<open>The walk appends what \<open>project\<close> lists\<close>

lemma append_block_blocks: "append_block d b = append_blocks d [b]"
  by (simp add: append_block_def append_blocks_def)

lemma append_blocks_Nil [simp]: "append_blocks d [] = d"
  by (simp add: append_blocks_def)

lemma append_blocks_append [simp]:
  "append_blocks (append_blocks d xs) ys = append_blocks d (xs @ ys)"
  by (simp add: append_blocks_def)

lemma body_append_blocks [simp]: "body (append_blocks d bs) = body d @ bs"
  by (simp add: append_blocks_def)

lemma core_title_append_blocks [simp]: "core_title (append_blocks d bs) = core_title d"
  by (simp add: append_blocks_def)

lemma emit_text_frame:
  "emit_text env d title is_leaf level =
     map_sum id (\<lambda>b. append_blocks d [b]) (text_block env title is_leaf level)"
  by (simp add: emit_text_def text_block_def add_heading_def add_paragraph_def
      set_left_indent_def append_block_def append_blocks_def Let_def)

lemma insert_image_frame:
  "insert_image env d topic assets w =
     map_sum id (append_blocks d) (picture_blocks env topic assets w)"
  by (simp add: picture_blocks_def insert_image_def embed_def add_picture_def
      append_block_def append_blocks_def new_document_def
      split: sum.splits option.splits)

lemma picture_blocks_shape:
  "picture_blocks env topic assets w = Inr ps \<Longrightarrow>
   ps = [] \<or> (\<exists>data. ps = [Picture data w]) \<or> ps = [Paragraph [] (ustr ''Normal'') None]"
  by (auto simp: picture_blocks_def insert_image_def embed_def add_picture_def
      append_block_def new_document_def
      split: sum.splits option.splits if_splits)

lemma picture_blocks_aside:
  assumes "picture_blocks env topic assets w = Inr ps"
  shows "list_all (\<lambda>p. \<not> is_node_block p) ps" and "length ps \<le> 1"
    and "list_all (\<lambda>p. \<not> is_field p) ps"
  using picture_blocks_shape [OF assms] by (auto simp: ustr_def)

lemma for_each_frame:
  assumes "\<And>x d. x \<in> set xs \<Longrightarrow> f x d = map_sum id (append_blocks d) (r x)"
  shows "for_each f xs d = map_sum id (append_blocks d) (collect r xs)"
  using assms
proof (induction xs arbitrary: d)
  case Nil
  then show ?case by simp
next
  case (Cons x xs)
  then show ?case
    by (cases "r x"; cases "collect r xs") simp_all
qed

lemma add_topic_project:
  "add_topic env d topic assets level w =
     map_sum id (append_blocks d) (project env topic assets level w)"
proof (induction env d topic assets level w rule: add_topic.induct)
  case (1 env document kvs assets level w)
  show ?case
  proof (cases "topic_title env (PyDict kvs)")
    case (Inl e)
    then show ?thesis by simp
  next
    case title: (Inr title)
    show ?thesis
    proof (cases "iter_children (PyDict kvs)")
      case (Inl e)
      with title show ?thesis by simp
    next
      case cs: (Inr cs)
      show ?thesis
      proof (cases "text_block env title (cs = []) level")
        case (Inl e)
        with title cs show ?thesis by (simp add: emit_text_frame)
      next
        case b: (Inr b)
        show ?thesis
        proof (cases "picture_blocks env (PyDict kvs) assets w")
          case (Inl e)
          with title cs b show ?thesis by (simp add: emit_text_frame insert_image_frame)
        next
          case ps: (Inr ps)
          have emit: "emit_text env document title (length cs = 0) level
                      = Inr (append_blocks document [b])"
            using b by (simp add: emit_text_frame)
          have img: "insert_image env (append_blocks document [b]) (PyDict kvs) assets w
                     = Inr (append_blocks document (b # ps))"
            using ps by (simp add: insert_image_frame)
          let ?call = "\<lambda>child d. if recursion_limit env < level + 1 then Inl RecursionError
                         else add_topic env d child assets (level + 1) w"
          let ?list = "\<lambda>child. if recursion_limit env < level + 1 then Inl RecursionError
                         else project env child assets (level + 1) w"
          have "?call c d' = map_sum id (append_blocks d') (?list c)" if "c \<in> set cs" for c d'
            using "1.IH" [OF title cs emit img that]
            by (cases "recursion_limit env < level + 1") (simp_all add: id_def)
          then have "for_each ?call cs (append_blocks document (b # ps))
                = map_sum id (append_blocks (append_blocks document (b # ps))) (collect ?list cs)"
            by (rule for_each_frame)
          with title cs b ps emit img show ?thesis
            by (cases "collect ?list cs") simp_all
        qed
      qed
    qed
  qed
qed simp_all

lemma topic_title_dict:
  "topic_title env (PyDict kvs) =
     Inr (sanitize_title (str env (py_or (case map_of kvs (ustr ''title'') of
                                            None \<Rightarrow> PyStr [] | Some v \<Rightarrow> v) (PyStr []))))"
  by (simp add: topic_title_def)

lemma wf_topic_dict:
  "wf_topic (PyDict kvs) \<longleftrightarrow>
     node_ok (PyDict kvs) \<and> (\<forall>c \<in> set (children_of (PyDict kvs)). wf_topic c)"
  by (simp add: wf_topic_def list_all_iff)

lemma wf_topic_is_dict: "wf_topic topic \<Longrightarrow> \<exists>kvs. topic = PyDict kvs"
  by (cases topic) (auto simp: wf_topic_def node_ok_def iter_children_def)

lemma walkable_dict:
  "walkable env level (PyDict kvs) \<longleftrightarrow>
     node_ok (PyDict kvs) \<and> title_ok env (PyDict kvs)
     \<and> (\<forall>c \<in> set (children_of (PyDict kvs)).
           level + 1 \<le> recursion_limit env \<and> walkable env (level + 1) c)"
  by (simp add: list_all_iff)

lemma walkable_is_dict: "walkable env level topic \<Longrightarrow> \<exists>kvs. topic = PyDict kvs"
  by (cases topic) auto

lemma walkable_wf: "walkable env level topic \<Longrightarrow> wf_topic topic"
proof (induction env level topic rule: walkable.induct)
  case (1 env level kvs)
  then show ?case
    by (auto simp: walkable_dict wf_topic_dict simp del: walkable.simps)
qed simp_all

lemma node_ok_children:
  "node_ok topic \<Longrightarrow> iter_children topic = Inr (children_of topic)"
  by (auto simp: node_ok_def children_of_def split: sum.splits)

lemma image_ok_pictures:
  "image_ok topic \<Longrightarrow> \<exists>ps. picture_blocks env topic assets w = Inr ps"
  unfolding image_ok_def picture_blocks_def insert_image_def
  by (auto split: sum.splits option.splits if_splits elim!: assets_get.elims)

lemma pictures_image_ok:
  "picture_blocks env topic assets w = Inr ps \<Longrightarrow> image_ok topic"
  unfolding image_ok_def picture_blocks_def insert_image_def
  by (auto split: sum.splits option.splits if_splits elim!: assets_get.elims)

lemma text_block_level:
  "1 \<le> level \<Longrightarrow> xml_compatible title \<Longrightarrow>
   text_block env title is_leaf level =
     Inr (if level = 1 \<or> \<not> is_leaf then Heading (min level 9) title
          else Paragraph title (ustr ''List Bullet'')
                 (if left_indent_raises env (1 / 4 * of_int (level - 1)) then None
                  else Some (1 / 4 * of_int (level - 1))))"
  by (simp add: text_block_def max_def)

lemma text_block_rejected:
  "\<not> xml_compatible title \<Longrightarrow> text_block env title is_leaf level = Inl ValueError"
  by (simp add: text_block_def)

lemma text_block_node:
  assumes "text_block env title is_leaf level = Inr b"
  shows "is_node_block b" and "is_text b" and "\<not> is_field b" and "block_text b = Some title"
    and "xml_compatible title"
  using assms by (auto simp: text_block_def split: if_splits)

lemma title_ok_accepted:
  "title_ok env topic \<Longrightarrow> topic_title env topic = Inr title \<Longrightarrow> xml_compatible title"
  by (simp add: title_ok_def)

lemma collect_all_Inr:
  assumes "\<And>x. x \<in> set xs \<Longrightarrow> \<exists>ys. f x = Inr ys"
  shows "collect f xs = Inr (concat (map (\<lambda>x. case f x of Inl e \<Rightarrow> [] | Inr ys \<Rightarrow> ys) xs))"
  using assms
proof (induction xs)
  case Nil
  then show ?case by simp
next
  case (Cons x xs)
  then obtain ys where "f x = Inr ys" by auto
  with Cons show ?case by simp
qed

lemma collect_elems:
  "collect f xs = Inr ys \<Longrightarrow> y \<in> set ys \<Longrightarrow> \<exists>x \<in> set xs. \<exists>zs. f x = Inr zs \<and> y \<in> set zs"
  by (induction xs arbitrary: ys) (auto split: sum.splits)

lemma collect_Inr_each:
  "collect f xs = Inr ys \<Longrightarrow> x \<in> set xs \<Longrightarrow> \<exists>zs. f x = Inr zs"
  by (induction xs arbitrary: ys) (auto split: sum.splits)

lemma project_walkable:
  "walkable env level topic \<Longrightarrow> 1 \<le> level \<Longrightarrow> \<exists>bs. project env topic assets level w = Inr bs"
proof (induction env topic assets level w rule: project.induct)
  case (1 env kvs assets level w)
  let ?cs = "children_of (PyDict kvs)"
  from "1.prems" have ok: "node_ok (PyDict kvs)" and tok: "title_ok env (PyDict kvs)"
    and sub: "\<And>c. c \<in> set ?cs \<Longrightarrow> level + 1 \<le> recursion_limit env \<and> walkable env (level + 1) c"
    by (auto simp: walkable_dict simp del: walkable.simps)
  from ok have cs: "iter_children (PyDict kvs) = Inr ?cs"
    by (rule node_ok_children)
  obtain title where title: "topic_title env (PyDict kvs) = Inr title"
    by (simp add: topic_title_dict)
  with tok have "xml_compatible title"
    by (rule title_ok_accepted)
  with "1.prems" obtain b where b: "text_block env title (?cs = []) level = Inr b"
    by (simp add: text_block_level)
  from ok cs obtain ps where ps: "picture_blocks env (PyDict kvs) assets w = Inr ps"
    by (auto simp: node_ok_def dest: image_ok_pictures)
  let ?list = "\<lambda>child. if recursion_limit env < level + 1 then Inl RecursionError
                 else project env child assets (level + 1) w"
  have "\<exists>ys. ?list c = Inr ys" if "c \<in> set ?cs" for c
    using "1.IH" [OF title cs b ps that] sub [OF that] "1.prems" by simp
  then have "collect ?list ?cs
    = Inr (concat (map (\<lambda>x. case ?list x of Inl e \<Rightarrow> [] | Inr ys \<Rightarrow> ys) ?cs))"
    by (rule collect_all_Inr)
  with title cs b ps show ?case by simp
qed simp_all

lemma project_unfold:
  assumes "walkable env level (PyDict kvs)" and "1 \<le> level"
  shows "\<exists>title b ps.
           topic_title env (PyDict kvs) = Inr title
           \<and> text_block env title (children_of (PyDict kvs) = []) level = Inr b
           \<and> picture_blocks env (PyDict kvs) assets w = Inr ps
           \<and> project env (PyDict kvs) assets level w =
               Inr (b # ps @ concat (map (\<lambda>c. emitted env c assets (level + 1) w)
                                      (children_of (PyDict kvs))))"
proof -
  let ?cs = "children_of (PyDict kvs)"
  from assms(1) have ok: "node_ok (PyDict kvs)" and tok: "title_ok env (PyDict kvs)"
    and sub: "\<And>c. c \<in> set ?cs \<Longrightarrow> level + 1 \<le> recursion_limit env \<and> walkable env (level + 1) c"
    by (auto simp: walkable_dict simp del: walkable.simps)
  from ok have cs: "iter_children (PyDict kvs) = Inr ?cs"
    by (rule node_ok_children)
  obtain title where title: "topic_title env (PyDict kvs) = Inr title"
    by (simp add: topic_title_dict)
  with tok have "xml_compatible title"
    by (rule title_ok_accepted)
  with assms(2) obtain b where b: "text_block env title (?cs = []) level = Inr b"
    by (simp add: text_block_level)
  from ok cs obtain ps where ps: "picture_blocks env (PyDict kvs) assets w = Inr ps"
    by (auto simp: node_ok_def dest: image_ok_pictures)
  let ?list = "\<lambda>child. if recursion_limit env < level + 1 then Inl RecursionError
                 else project env child assets (level + 1) w"
  have each: "\<exists>ys. ?list c = Inr ys \<and> ys = emitted env c assets (level + 1) w"
    if "c \<in> set ?cs" for c
    using project_walkable [of env "level + 1" c assets w] sub [OF that] assms(2)
    by (auto simp: emitted_def)
  then have coll: "collect ?list ?cs
    = Inr (concat (map (\<lambda>x. case ?list x of Inl e \<Rightarrow> [] | Inr ys \<Rightarrow> ys) ?cs))"
    by (intro collect_all_Inr) blast
  have meq: "map (\<lambda>x. case ?list x of Inl e \<Rightarrow> [] | Inr ys \<Rightarrow> ys) ?cs
             = map (\<lambda>c. emitted env c assets (level + 1) w) ?cs"
    by (rule map_cong [OF refl]) (use each in force)
  from coll have "collect ?list ?cs
    = Inr (concat (map (\<lambda>c. emitted env c assets (level + 1) w) ?cs))"
    by (simp only: meq)
  with title cs b ps show ?thesis
    by simp
qed

lemma emitted_count:
  "walkable env level topic \<Longrightarrow> 1 \<le> level \<Longrightarrow>
   length (filter is_node_block (emitted env topic assets level w)) = length (topic_nodes topic)"
proof (induction topic arbitrary: level rule: topic_nodes.induct)
  case (1 kvs)
  let ?cs = "children_of (PyDict kvs)"
  from project_unfold [OF "1.prems", of assets w]
  obtain b ps where b: "is_node_block b"
    and ps: "picture_blocks env (PyDict kvs) assets w = Inr ps"
    and out: "emitted env (PyDict kvs) assets level w =
                b # ps @ concat (map (\<lambda>c. emitted env c assets (level + 1) w) ?cs)"
    by (auto simp: emitted_def dest: text_block_node)
  from ps have nops: "filter is_node_block ps = []"
    using picture_blocks_aside(1) [OF ps] by (auto simp: filter_empty_conv list_all_iff)
  have "length (filter is_node_block (emitted env c assets (level + 1) w))
        = length (topic_nodes c)"
    if "c \<in> set ?cs" for c
    using "1.IH" [OF that, of "level + 1"] "1.prems" that
    by (simp add: walkable_dict del: walkable.simps)
  then have "map (\<lambda>c. length (filter is_node_block (emitted env c assets (level + 1) w))) ?cs
           = map (\<lambda>c. length (topic_nodes c)) ?cs"
    by simp
  then have "sum_list (map (\<lambda>c. length (filter is_node_block
                                       (emitted env c assets (level + 1) w))) ?cs)
           = sum_list (map (\<lambda>c. length (topic_nodes c)) ?cs)"
    by (rule arg_cong)
  then show ?case
    by (simp add: out b nops filter_concat length_concat comp_def)
qed (auto dest: walkable_is_dict)

lemma project_only_walkable:
  "project env topic assets level w = Inr bs \<Longrightarrow> walkable env level topic"
proof (induction env topic assets level w arbitrary: bs rule: project.induct)
  case (1 env kvs assets level w)
  let ?list = "\<lambda>child. if recursion_limit env < level + 1 then Inl RecursionError
                 else project env child assets (level + 1) w"
  from "1.prems" obtain title cs b0 ps rest where
    title: "topic_title env (PyDict kvs) = Inr title"
    and cs: "iter_children (PyDict kvs) = Inr cs"
    and b0: "text_block env title (cs = []) level = Inr b0"
    and ps: "picture_blocks env (PyDict kvs) assets w = Inr ps"
    and rest: "collect ?list cs = Inr rest"
    by (auto split: sum.splits)
  from cs ps have "node_ok (PyDict kvs)"
    by (auto simp: node_ok_def dest: pictures_image_ok)
  moreover from title text_block_node(5) [OF b0] have "title_ok env (PyDict kvs)"
    by (simp add: title_ok_def)
  moreover have "level + 1 \<le> recursion_limit env \<and> walkable env (level + 1) c"
    if "c \<in> set (children_of (PyDict kvs))" for c
  proof -
    from that cs have c: "c \<in> set cs"
      by (simp add: children_of_def)
    with rest obtain zs where zs: "?list c = Inr zs"
      by (blast dest: collect_Inr_each)
    then have lim: "\<not> recursion_limit env < level + 1"
      and "project env c assets (level + 1) w = Inr zs"
      by (auto split: if_splits)
    with c have "walkable env (level + 1) c"
      using "1.IH" [OF title cs b0 ps] by blast
    with lim show ?thesis
      by simp
  qed
  ultimately show ?case
    by (simp add: walkable_dict del: walkable.simps)
qed simp_all

lemma project_blocks:
  "project env topic assets level w = Inr bs \<Longrightarrow> b \<in> set bs \<Longrightarrow>
   \<not> is_field b \<and> (is_node_block b \<longrightarrow> block_text b \<noteq> Some [])"
proof (induction env topic assets level w arbitrary: bs rule: project.induct)
  case (1 env kvs assets level w)
  let ?list = "\<lambda>child. if recursion_limit env < level + 1 then Inl RecursionError
                 else project env child assets (level + 1) w"
  from "1.prems"(1) obtain title cs b0 ps rest where
    title: "topic_title env (PyDict kvs) = Inr title"
    and cs: "iter_children (PyDict kvs) = Inr cs"
    and b0: "text_block env title (cs = []) level = Inr b0"
    and ps: "picture_blocks env (PyDict kvs) assets w = Inr ps"
    and rest: "collect ?list cs = Inr rest"
    and bs: "bs = b0 # ps @ rest"
    by (auto split: sum.splits)
  from "1.prems"(2) bs consider "b = b0" | "b \<in> set ps" | "b \<in> set rest"
    by auto
  then show ?case
  proof cases
    case 1
    from title have "title \<noteq> []"
      by (auto simp: topic_title_def sanitize_title_nonempty split: sum.splits)
    with 1 text_block_node [OF b0] show ?thesis
      by simp
  next
    case 2
    with picture_blocks_aside [OF ps] show ?thesis
      by (auto simp: list_all_iff)
  next
    case 3
    with rest obtain c zs where c: "c \<in> set cs" and "?list c = Inr zs" and z: "b \<in> set zs"
      by (blast dest: collect_elems)
    then have "\<not> recursion_limit env < level + 1"
      and "project env c assets (level + 1) w = Inr zs"
      by (auto split: if_splits)
    with c z show ?thesis
      using "1.IH" [OF title cs b0 ps] by blast
  qed
qed simp_all

lemma project_no_field:
  assumes "project env topic assets level w = Inr bs"
  shows "filter is_field bs = []" and "filter (\<lambda>b. \<not> is_field b) bs = bs"
  using project_blocks [OF assms] by (auto simp: filter_empty_conv filter_id_conv)

lemma build_document_toc:
  "build_document env False root_topic assets img_width =
     (case build_document env True root_topic assets img_width of
        Inl e \<Rightarrow> Inl e
      | Inr d \<Rightarrow> Inr (d\<lparr>body := FieldParagraph toc_instr # body d\<rparr>))"
  by (cases "py_get root_topic (ustr ''title'') (PyStr (ustr ''XMind''))";
      cases "project env root_topic assets 1 (max img_width (1 / 10))")
    (simp_all add: build_document_def set_core_title_def add_topic_project add_toc_def
      append_block_def append_blocks_def new_document_def)

lemma build_document_plain:
  assumes "build_document env True root_topic assets img_width = Inr d"
  shows "filter is_field (body d) = []" and "filter (\<lambda>b. \<not> is_field b) (body d) = body d"
proof -
  from assms obtain bs where "project env root_topic assets 1 (max img_width (1 / 10)) = Inr bs"
    and "body d = bs"
    by (cases "project env root_topic assets 1 (max img_width (1 / 10))")
      (auto simp: build_document_def set_core_title_def add_topic_project append_blocks_def
        new_document_def split: sum.splits if_splits)
  then show "filter is_field (body d) = []"
    and "filter (\<lambda>b. \<not> is_field b) (body d) = body d"
    by (auto dest: project_no_field)
qed


section \<open>The worked input, evaluated\<close>

lemmas example_defs =
  example_root_def pictured_def leaf_def branch_def example_env_def new_document_def

lemmas walk_defs =
  iter_children_def topic_title_def py_or_def str_def sanitize_title_def strip_def
  isspace_def keep_char_def ustr_def

lemmas sink_defs =
  emit_text_def add_heading_def add_paragraph_def set_left_indent_def append_block_def
  append_blocks_def insert_image_def embed_def add_picture_def text_block_def
  picture_blocks_def xml_compatible_def xml_char_def

lemma example_children:
  "iter_children (PyDict example_root) = Inr [leaf ''B'', branch ''C'' [leaf ''D'']]"
  by (simp add: example_defs walk_defs)

lemma example_children_of:
  "children_of (PyDict example_root) = [leaf ''B'', branch ''C'' [leaf ''D'']]"
  by (simp add: children_of_def example_children)

lemma leaf_children: "iter_children (leaf t) = Inr []"
  by (simp add: leaf_def walk_defs)

lemma branch_children: "iter_children (branch t cs) = Inr cs"
  by (simp add: branch_def walk_defs)

lemma example_title: "topic_title example_env (PyDict example_root) = Inr (ustr ''A'')"
  by (simp add: example_defs walk_defs)

lemma leaf_nodes: "topic_nodes (leaf t) = [leaf t]"
  by (simp add: leaf_def children_of_def leaf_children [unfolded leaf_def])

lemma branch_nodes: "topic_nodes (branch t cs) = branch t cs # concat (map topic_nodes cs)"
  by (simp add: branch_def children_of_def branch_children [unfolded branch_def])

lemma example_nodes:
  "topic_nodes (PyDict example_root) =
     [PyDict example_root, leaf ''B'', branch ''C'' [leaf ''D''], leaf ''D'']"
  by (simp add: children_of_def example_children leaf_nodes branch_nodes)

lemma leaf_ok: "node_ok (leaf t)"
  by (simp add: node_ok_def leaf_children) (simp add: image_ok_def leaf_def py_or_def ustr_def)

lemma branch_ok: "node_ok (branch t cs)"
  by (simp add: node_ok_def branch_children) (simp add: image_ok_def branch_def py_or_def ustr_def)

lemma example_root_ok: "node_ok (PyDict example_root)"
  by (simp add: node_ok_def example_children)
    (simp add: image_ok_def example_root_def py_or_def ustr_def)

lemma example_wf: "wf_topic (PyDict example_root)"
  unfolding wf_topic_def example_nodes
  by (simp add: example_root_ok leaf_ok branch_ok)

lemma leaf_title: "title_ok env (leaf ''B'')" "title_ok env (leaf ''D'')"
  by (simp_all add: title_ok_def leaf_def walk_defs xml_compatible_def xml_char_def)

lemma leaf_walkable:
  "walkable env level (leaf ''B'')" "walkable env level (leaf ''D'')"
  using leaf_ok [of "''B''"] leaf_ok [of "''D''"] leaf_title [of env]
  by (simp_all add: leaf_def children_of_def leaf_children [unfolded leaf_def])

lemma example_walkable: "walkable example_env 1 (PyDict example_root)"
proof -
  have limit: "recursion_limit example_env = 1000"
    by (simp add: example_env_def)
  have "title_ok example_env (branch ''C'' [leaf ''D''])"
    by (simp add: title_ok_def branch_def walk_defs xml_compatible_def xml_char_def)
  then have "walkable example_env 2 (branch ''C'' [leaf ''D''])"
    using branch_ok [of "''C''" "[leaf ''D'']"] leaf_walkable(2) [of example_env 3] limit
    by (simp add: branch_def children_of_def branch_children [unfolded branch_def])
  moreover have "title_ok example_env (PyDict example_root)"
    by (simp add: title_ok_def example_title xml_compatible_def xml_char_def ustr_def)
  ultimately show ?thesis
    using example_root_ok leaf_walkable(1) [of example_env 2] limit
    by (simp add: walkable_dict example_children_of del: walkable.simps)
qed

lemma example_emitted:
  "emitted example_env (PyDict example_root) Map.empty 1 6 =
     [Heading 1 (ustr ''A''),
      Paragraph (ustr ''B'') (ustr ''List Bullet'') (Some (1 / 4)),
      Heading 2 (ustr ''C''),
      Paragraph (ustr ''D'') (ustr ''List Bullet'') (Some (1 / 2))]"
  by (simp add: emitted_def example_defs walk_defs sink_defs)

lemma pictured_children: "iter_children (PyDict pictured) = Inr []"
  by (simp add: pictured_def walk_defs)

lemma pictured_walkable: "walkable env level (PyDict pictured)"
proof -
  have "node_ok (PyDict pictured)"
    by (simp add: node_ok_def pictured_children)
      (simp add: image_ok_def pictured_def py_or_def ustr_def)
  moreover have "title_ok env (PyDict pictured)"
    by (simp add: title_ok_def pictured_def walk_defs xml_compatible_def xml_char_def)
  ultimately show ?thesis
    by (simp add: children_of_def pictured_children)
qed

lemma example_zip_resources:
  "extract_resources example_zip
     = Inr [ustr ''resources/a.png'' \<mapsto> [137, 80, 78, 71],
            ustr ''xap:resources/a.png'' \<mapsto> [137, 80, 78, 71]]"
  by (simp add: extract_resources_def example_zip_def namelist_def extract_step_def
      startswith_def endswith_def zf_read_def ustr_def)

lemma reading_parse:
  "parse_source reading_env path
     = Inr (PyDict example_root,
            [ustr ''resources/a.png'' \<mapsto> [137, 80, 78, 71],
             ustr ''xap:resources/a.png'' \<mapsto> [137, 80, 78, 71]])"
proof -
  have "filter (\<lambda>n. endswith n (ustr ''content.json'')) (namelist example_zip)
        = [ustr ''content.json'']"
    by (simp add: example_zip_def namelist_def endswith_def ustr_def)
  moreover have "zf_read example_zip (ustr ''content.json'') = Inr [91, 93]"
    by (simp add: example_zip_def zf_read_def ustr_def)
  ultimately show ?thesis
    by (simp add: parse_source_def load_from_content_json_def load_body_def reading_env_def
        example_zip_resources)
qed

lemma reading_emitted:
  "project reading_env (PyDict example_root) assets 1 6 =
     Inr [Heading 1 (ustr ''A''),
          Paragraph (ustr ''B'') (ustr ''List Bullet'') (Some (1 / 4)),
          Heading 2 (ustr ''C''),
          Paragraph (ustr ''D'') (ustr ''List Bullet'') (Some (1 / 2))]"
  by (simp add: reading_env_def example_defs walk_defs sink_defs)

lemma pictured_stray:
  "picture_blocks rejecting_env (PyDict pictured) pictured_assets 6
   = Inr [Paragraph [] (ustr ''Normal'') None]"
  by (simp add: rejecting_env_def pictured_assets_def png_signature_def supported_kinds_def
      example_defs walk_defs sink_defs)

lemma pictured_rejected:
  "project rejecting_env (PyDict pictured) pictured_assets 1 6
   = Inr [Heading 1 (ustr ''P''), Paragraph [] (ustr ''Normal'') None]"
proof -
  have "topic_title rejecting_env (PyDict pictured) = Inr (ustr ''P'')"
    by (simp add: pictured_def walk_defs)
  moreover have "text_block rejecting_env (ustr ''P'') True 1 = Inr (Heading 1 (ustr ''P''))"
    by (simp add: text_block_def xml_compatible_def xml_char_def ustr_def)
  ultimately show ?thesis
    by (simp add: pictured_children pictured_stray)
qed

section \<open>A chain deeper than the limit\<close>

lemma branch_title: "topic_title env (branch ''x'' cs) = Inr (ustr ''x'')"
  by (simp add: branch_def walk_defs)

lemma branch_pictures: "picture_blocks env (branch t cs) assets w = Inr []"
  by (simp add: branch_def picture_blocks_def insert_image_def py_or_def ustr_def
      new_document_def)

lemma chain_overflow:
  "1 \<le> level \<Longrightarrow> level \<le> recursion_limit env \<Longrightarrow> recursion_limit env < level + int n \<Longrightarrow>
   project env (chain n) assets level w = Inl RecursionError"
proof (induction n arbitrary: level)
  case 0
  then show ?case by simp
next
  case (Suc n)
  have head: "text_block env (ustr ''x'') False level = Inr (Heading (min level 9) (ustr ''x''))"
    using Suc.prems(1) by (simp add: text_block_def xml_compatible_def xml_char_def ustr_def)
  have "project env (chain n) assets (level + 1) w = Inl RecursionError"
    if "\<not> recursion_limit env < level + 1"
    using that Suc.prems by (intro Suc.IH) auto
  then have "collect (\<lambda>child. if recursion_limit env < level + 1 then Inl RecursionError
                       else project env child assets (level + 1) w) [chain n]
             = Inl RecursionError"
    by simp
  with head show ?case
    using branch_title [of env "[chain n]"] branch_children [of "''x''" "[chain n]"]
      branch_pictures [of env "''x''" "[chain n]" assets w]
    by (simp add: branch_def del: project.simps(2-))
qed

section \<open>The title handed to the sink\<close>

text \<open>
  C4.  Sanitizing a title twice gives what sanitizing it once gives, so an
  already sanitized title is returned as it is; the empty title, and every title
  made only of characters below the space character and of whitespace, gives the
  one-character string \<^verbatim>\<open>.\<close>; and no sanitized title is empty, so the title \<^verbatim>\<open>add_topic\<close> hands
  to the sink never is: every heading and every bulleted paragraph that a completed
  walk has appended has a text that is not empty.  (The empty paragraph that a
  rejected picture leaves behind is python-docx's own, in the style \<^verbatim>\<open>Normal\<close>; no
  title was handed over for it.)
\<close>

theorem sanitize_title_idempotent:
  "sanitize_title (sanitize_title s) = sanitize_title s
   \<and> sanitize_title [] = ustr ''.''
   \<and> ((\<forall>c \<in> set s. c < 32 \<or> isspace c) \<longrightarrow> sanitize_title s = ustr ''.'')
   \<and> sanitize_title s \<noteq> []
   \<and> (topic_title env topic = Inr title \<longrightarrow> title \<noteq> [])
   \<and> (add_topic env document topic assets level w = Inr d \<longrightarrow>
         (\<exists>bs. d = append_blocks document bs
            \<and> (\<forall>b \<in> set bs. is_node_block b \<longrightarrow> block_text b \<noteq> Some [])))"
proof -
  have "sanitize_title [] = ustr ''.''"
    by (rule sanitize_title_blank) simp
  moreover have "(\<forall>c \<in> set s. c < 32 \<or> isspace c) \<longrightarrow> sanitize_title s = ustr ''.''"
    by (auto intro: sanitize_title_blank)
  moreover have "topic_title env topic = Inr title \<longrightarrow> title \<noteq> []"
    by (auto simp: topic_title_def sanitize_title_nonempty split: sum.splits)
  moreover have "\<exists>bs. d = append_blocks document bs
      \<and> (\<forall>b \<in> set bs. is_node_block b \<longrightarrow> block_text b \<noteq> Some [])"
    if "add_topic env document topic assets level w = Inr d"
  proof -
    from that obtain bs where "project env topic assets level w = Inr bs"
      and "d = append_blocks document bs"
      by (cases "project env topic assets level w") (auto simp: add_topic_project)
    then show ?thesis
      by (blast dest: project_blocks)
  qed
  ultimately show ?thesis
    by (simp add: sanitize_title_idem sanitize_title_nonempty)
qed

theorem sanitize_title_idempotent_witness:
  "list_all (\<lambda>c. c < 32 \<or> isspace c) [1, 9, 31, 12288]
   \<and> sanitize_title [1, 9, 31, 12288] = ustr ''.''
   \<and> sanitize_title (ustr '' a b '') = ustr ''a b''
   \<and> sanitize_title (ustr ''a b'') = ustr ''a b''
   \<and> add_topic rejecting_env new_document (PyDict pictured) pictured_assets 1 6
       = Inr (append_blocks new_document
               [Heading 1 (ustr ''P''), Paragraph [] (ustr ''Normal'') None])
   \<and> filter is_node_block [Heading 1 (ustr ''P''), Paragraph [] (ustr ''Normal'') None]
       = [Heading 1 (ustr ''P'')]
   \<and> block_text (Heading 1 (ustr ''P'')) \<noteq> Some []"
proof -
  have below: "\<forall>c \<in> set [1, 9, 31, 12288]. c < 32 \<or> isspace c"
    by (simp add: isspace_def)
  have once: "sanitize_title (ustr '' a b '') = ustr ''a b''"
    by (simp add: sanitize_title_def strip_def isspace_def keep_char_def ustr_def)
  have walk: "add_topic rejecting_env new_document (PyDict pictured) pictured_assets 1 6
              = Inr (append_blocks new_document
                      [Heading 1 (ustr ''P''), Paragraph [] (ustr ''Normal'') None])"
    using pictured_rejected by (simp add: add_topic_project del: project.simps)
  have nodes: "filter is_node_block
                 [Heading 1 (ustr ''P''), Paragraph [] (ustr ''Normal'') None]
               = [Heading 1 (ustr ''P'')]"
    by (simp add: ustr_def)
  from below sanitize_title_idempotent [of "[1, 9, 31, 12288]"]
  have blank: "sanitize_title [1, 9, 31, 12288] = ustr ''.''"
    by blast
  from once sanitize_title_idempotent [of "ustr '' a b ''"]
  have again: "sanitize_title (ustr ''a b'') = ustr ''a b''"
    by simp
  from walk sanitize_title_idempotent [where env = rejecting_env
      and topic = "PyDict pictured" and document = new_document
      and assets = pictured_assets and level = 1 and w = 6
      and d = "append_blocks new_document
                 [Heading 1 (ustr ''P''), Paragraph [] (ustr ''Normal'') None]"]
  obtain bs where "append_blocks new_document
        [Heading 1 (ustr ''P''), Paragraph [] (ustr ''Normal'') None]
      = append_blocks new_document bs"
    and "\<forall>b \<in> set bs. is_node_block b \<longrightarrow> block_text b \<noteq> Some []"
    by blast
  then have filled: "block_text (Heading 1 (ustr ''P'')) \<noteq> Some []"
    by (auto simp: append_blocks_def new_document_def)
  have blanks: "list_all (\<lambda>c. c < 32 \<or> isspace c) [1, 9, 31, 12288]"
    by (simp add: isspace_def)
  from blanks blank once again walk nodes filled show ?thesis
    by (intro conjI) assumption+
qed

section \<open>The children of a topic\<close>

lemma iter_groups_lists:
  "iter_groups (map (snd \<circ> (\<lambda>(name, cs). (name, PyList cs))) groups)
   = Inr (concat (map snd groups))"
  by (induction groups) auto

text \<open>
  C3.  For a topic whose \<^verbatim>\<open>topics\<close> value (when present) is a dict of lists and whose
  \<^verbatim>\<open>children\<close> value (when present) is a dict whose \<^verbatim>\<open>attached\<close> and \<^verbatim>\<open>detached\<close>
  values (when present) are lists, \<^verbatim>\<open>iter_children\<close> raises nothing and yields the
  members of every group in the order of the groups, then the attached list, then
  the detached list; both shapes may be present at once, and with neither the result
  is empty.
\<close>

theorem iter_children_order:
  assumes "map_of kvs (ustr ''topics'') = None \<and> groups = []
           \<or> map_of kvs (ustr ''topics'')
               = Some (PyDict (map (\<lambda>(name, cs). (name, PyList cs)) groups))"
    and "map_of kvs (ustr ''children'') = None \<and> attached = [] \<and> detached = []
         \<or> (\<exists>entries. map_of kvs (ustr ''children'') = Some (PyDict entries)
              \<and> (map_of entries (ustr ''attached'') = None \<and> attached = []
                  \<or> map_of entries (ustr ''attached'') = Some (PyList attached))
              \<and> (map_of entries (ustr ''detached'') = None \<and> detached = []
                  \<or> map_of entries (ustr ''detached'') = Some (PyList detached)))"
  shows "iter_children (PyDict kvs) = Inr (concat (map snd groups) @ attached @ detached)
         \<and> (map_of kvs (ustr ''topics'') = None \<and> map_of kvs (ustr ''children'') = None
              \<longrightarrow> iter_children (PyDict kvs) = Inr [])"
proof -
  have neither: "iter_children (PyDict kvs) = Inr []"
    if "map_of kvs (ustr ''topics'') = None" and "map_of kvs (ustr ''children'') = None"
    using that by (simp add: iter_children_def)
  have grouped: "\<exists>topics gs. py_get (PyDict kvs) (ustr ''topics'') (PyDict []) = Inr topics
      \<and> py_values topics = Inr gs \<and> iter_groups gs = Inr (concat (map snd groups))"
    using assms(1) by (auto simp: iter_groups_lists)
  have listed: "\<exists>children a d. py_get (PyDict kvs) (ustr ''children'') (PyDict []) = Inr children
      \<and> py_get children (ustr ''attached'') (PyList []) = Inr a \<and> py_iter a = Inr attached
      \<and> py_get children (ustr ''detached'') (PyList []) = Inr d \<and> py_iter d = Inr detached"
    using assms(2) by auto
  from grouped listed have "iter_children (PyDict kvs)
      = Inr (concat (map snd groups) @ attached @ detached)"
    unfolding iter_children_def by (auto simp del: py_get.simps)
  with neither show ?thesis
    by blast
qed

theorem iter_children_order_witness:
  "iter_children (PyDict both_shapes)
   = Inr [leaf ''X'', leaf ''Y'', leaf ''Z'', leaf ''B'', leaf ''E'']"
proof -
  have topics: "map_of both_shapes (ustr ''topics'') = None
                  \<and> [(ustr ''g1'', [leaf ''X'']), (ustr ''g2'', [leaf ''Y'', leaf ''Z''])] = []
                \<or> map_of both_shapes (ustr ''topics'')
                    = Some (PyDict (map (\<lambda>(name, cs). (name, PyList cs))
                         [(ustr ''g1'', [leaf ''X'']), (ustr ''g2'', [leaf ''Y'', leaf ''Z''])]))"
    by (simp add: both_shapes_def ustr_def)
  have children: "map_of both_shapes (ustr ''children'') = None
                    \<and> [leaf ''B''] = [] \<and> [leaf ''E''] = []
        \<or> (\<exists>entries. map_of both_shapes (ustr ''children'') = Some (PyDict entries)
              \<and> (map_of entries (ustr ''attached'') = None \<and> [leaf ''B''] = []
                  \<or> map_of entries (ustr ''attached'') = Some (PyList [leaf ''B'']))
              \<and> (map_of entries (ustr ''detached'') = None \<and> [leaf ''E''] = []
                  \<or> map_of entries (ustr ''detached'') = Some (PyList [leaf ''E''])))"
    by (simp add: both_shapes_def ustr_def)
  from iter_children_order [OF topics children] show ?thesis
    by simp
qed

section \<open>The resource mapping\<close>

lemma resource_not_alias:
  "startswith p (ustr ''resources/'') \<Longrightarrow> p \<noteq> ustr ''xap:'' @ q"
  by (cases p) (auto simp: startswith_def ustr_def)

lemma extract_step_keeps:
  assumes "extract_step zf name mapping = Inr mapping'"
    and "startswith p (ustr ''resources/'')" and "stored zf mapping p"
  shows "stored zf mapping' p"
  using assms resource_not_alias [of p name] resource_not_alias [of name p]
  by (auto simp: extract_step_def stored_def split: if_splits sum.splits)

lemma extract_step_stores:
  assumes "extract_step zf name mapping = Inr mapping'"
    and "startswith name (ustr ''resources/'')" and "\<not> endswith name (ustr ''/'')"
  shows "stored zf mapping' name"
  using assms resource_not_alias [of name name]
  by (auto simp: extract_step_def stored_def split: if_splits sum.splits)

lemma extract_step_raises:
  "extract_step zf name mapping = Inl e \<Longrightarrow>
   startswith name (ustr ''resources/'') \<and> \<not> endswith name (ustr ''/'')
   \<and> zf_read zf name = Inl e"
  by (auto simp: extract_step_def split: if_splits sum.splits)

lemma extract_loop_stores:
  assumes "for_each (extract_step zf) names mapping = Inr mapping'"
    and "\<And>p. p \<in> set seen \<Longrightarrow> startswith p (ustr ''resources/'') \<Longrightarrow>
              \<not> endswith p (ustr ''/'') \<Longrightarrow> stored zf mapping p"
    and "p \<in> set seen \<union> set names"
    and "startswith p (ustr ''resources/'')" and "\<not> endswith p (ustr ''/'')"
  shows "stored zf mapping' p"
  using assms
proof (induction names arbitrary: mapping seen)
  case Nil
  then show ?case by simp
next
  case (Cons name names)
  from Cons.prems(1) obtain m1 where step: "extract_step zf name mapping = Inr m1"
    and rest: "for_each (extract_step zf) names m1 = Inr mapping'"
    by (auto split: sum.splits)
  have "stored zf m1 q" if "q \<in> set (name # seen)" and "startswith q (ustr ''resources/'')"
    and "\<not> endswith q (ustr ''/'')" for q
  proof (cases "q = name")
    case True
    with step that show ?thesis by (auto intro: extract_step_stores)
  next
    case False
    with that Cons.prems(2) have "stored zf mapping q" by auto
    with step that show ?thesis by (auto intro: extract_step_keeps)
  qed
  moreover from Cons.prems(3) have "p \<in> set (name # seen) \<union> set names" by auto
  ultimately show ?case
    using Cons.IH [OF rest, of "name # seen"] Cons.prems(4,5) by blast
qed

lemma extract_loop_raises:
  "for_each (extract_step zf) names mapping = Inl e \<Longrightarrow>
   \<exists>p \<in> set names. startswith p (ustr ''resources/'') \<and> \<not> endswith p (ustr ''/'')
      \<and> zf_read zf p = Inl e"
  by (induction names arbitrary: mapping) (auto split: sum.splits dest: extract_step_raises)

text \<open>
  C5.  \<^verbatim>\<open>extract_resources\<close> raises only what reading a resource member raises.
  When it returns, every archive name that starts with \<^verbatim>\<open>resources/\<close> and does not end
  in a slash is a key of the mapping, and so is that name behind \<^verbatim>\<open>xap:\<close>; both give
  the bytes of the member.
\<close>

theorem extract_resources_both_keys:
  "case extract_resources zf of
     Inl e \<Rightarrow>
       (\<exists>p \<in> set (namelist zf). startswith p (ustr ''resources/'')
           \<and> \<not> endswith p (ustr ''/'') \<and> zf_read zf p = Inl e)
   | Inr mapping \<Rightarrow>
       (\<forall>p \<in> set (namelist zf). startswith p (ustr ''resources/'')
           \<and> \<not> endswith p (ustr ''/'') \<longrightarrow>
           (\<exists>data. zf_read zf p = Inr data \<and> mapping p = Some data
              \<and> mapping (ustr ''xap:'' @ p) = Some data))"
proof (cases "extract_resources zf")
  case (Inl e)
  then show ?thesis
    by (auto simp: extract_resources_def dest: extract_loop_raises)
next
  case (Inr mapping)
  then have "stored zf mapping p"
    if "p \<in> set (namelist zf)" and "startswith p (ustr ''resources/'')"
      and "\<not> endswith p (ustr ''/'')" for p
    using extract_loop_stores [of zf "namelist zf" Map.empty mapping "[]" p] that
    by (simp add: extract_resources_def)
  with Inr show ?thesis
    by (auto simp: stored_def)
qed

theorem extract_resources_both_keys_witness:
  "extract_resources example_zip
     = Inr [ustr ''resources/a.png'' \<mapsto> [137, 80, 78, 71],
            ustr ''xap:resources/a.png'' \<mapsto> [137, 80, 78, 71]]
   \<and> zf_read example_zip (ustr ''resources/a.png'') = Inr [137, 80, 78, 71]
   \<and> (\<exists>mapping. extract_resources example_zip = Inr mapping
         \<and> mapping (ustr ''resources/a.png'') = Some [137, 80, 78, 71]
         \<and> mapping (ustr ''xap:resources/a.png'') = Some [137, 80, 78, 71])"
proof -
  have run: "extract_resources example_zip
     = Inr [ustr ''resources/a.png'' \<mapsto> [137, 80, 78, 71],
            ustr ''xap:resources/a.png'' \<mapsto> [137, 80, 78, 71]]"
    by (simp add: extract_resources_def example_zip_def namelist_def extract_step_def
        startswith_def endswith_def zf_read_def ustr_def)
  have member: "ustr ''resources/a.png'' \<in> set (namelist example_zip)"
    and res: "startswith (ustr ''resources/a.png'') (ustr ''resources/'')"
    and plain: "\<not> endswith (ustr ''resources/a.png'') (ustr ''/'')"
    and read: "zf_read example_zip (ustr ''resources/a.png'') = Inr [137, 80, 78, 71]"
    by (simp_all add: example_zip_def namelist_def startswith_def endswith_def zf_read_def
        ustr_def)
  from extract_resources_both_keys [of example_zip] run member res plain read
  have "\<exists>mapping. extract_resources example_zip = Inr mapping
         \<and> mapping (ustr ''resources/a.png'') = Some [137, 80, 78, 71]
         \<and> mapping (ustr ''xap:resources/a.png'') = Some [137, 80, 78, 71]"
    by fastforce
  with run read show ?thesis
    by blast
qed

section \<open>Reading the archive\<close>




section \<open>The text block of a node\<close>




text \<open>
  C9.  When the \<^verbatim>\<open>title\<close> key is absent, or its value is \<^verbatim>\<open>None\<close> or the empty
  string, the title is the one-character string \<^verbatim>\<open>.\<close>, and that is the text of the
  block \<^verbatim>\<open>add_topic\<close> emits for the node, heading or paragraph.
\<close>

theorem missing_title_period:
  assumes "map_of kvs (ustr ''title'') = None \<or> map_of kvs (ustr ''title'') = Some PyNone
           \<or> map_of kvs (ustr ''title'') = Some (PyStr [])"
    and "1 \<le> level"
    and "iter_children (PyDict kvs) = Inr children"
  shows
    "topic_title env (PyDict kvs) = Inr (ustr ''.'')
     \<and> (\<exists>b. is_text b \<and> block_text b = Some (ustr ''.'')
            \<and> emit_text env document (ustr ''.'') (length children = 0) level
                = Inr (append_block document b)
            \<and> add_topic env document (PyDict kvs) assets level w =
                (case insert_image env (append_block document b) (PyDict kvs) assets w of
                   Inl e \<Rightarrow> Inl e
                 | Inr d2 \<Rightarrow>
                     for_each
                       (\<lambda>child d.
                          if recursion_limit env < level + 1 then Inl RecursionError
                          else add_topic env d child assets (level + 1) w)
                       children d2))"
proof -
  from assms(1) have raw: "str env (py_or (case map_of kvs (ustr ''title'') of
                              None \<Rightarrow> PyStr [] | Some v \<Rightarrow> v) (PyStr [])) = []"
    by (auto simp: py_or_def str_def)
  have "sanitize_title [] = ustr ''.''"
    by (rule sanitize_title_blank) simp
  with raw have title: "topic_title env (PyDict kvs) = Inr (ustr ''.'')"
    by (simp add: topic_title_dict)
  have "xml_compatible (ustr ''.'')"
    by (simp add: xml_compatible_def xml_char_def ustr_def)
  then obtain b where b: "text_block env (ustr ''.'') (children = []) level = Inr b"
    using assms(2) by (simp add: text_block_level)
  then have "is_text b" and "block_text b = Some (ustr ''.'')"
    by (auto dest: text_block_node)
  moreover from b have "emit_text env document (ustr ''.'') (length children = 0) level
                        = Inr (append_block document b)"
    by (simp add: emit_text_frame append_block_blocks)
  ultimately show ?thesis
    using title assms(3) by auto
qed

theorem missing_title_period_witness:
  "map_of [] (ustr ''title'') = (None :: pyval option)
   \<and> iter_children (PyDict []) = Inr []
   \<and> topic_title example_env (PyDict []) = Inr (ustr ''.'')
   \<and> add_topic example_env new_document (PyDict []) Map.empty 2 6
       = Inr (append_block new_document
               (Paragraph (ustr ''.'') (ustr ''List Bullet'') (Some (1 / 4))))"
proof -
  have absent: "map_of [] (ustr ''title'') = None \<or> map_of [] (ustr ''title'') = Some PyNone
                \<or> map_of [] (ustr ''title'') = Some (PyStr [])"
    by simp
  have two: "(1::int) \<le> 2"
    by simp
  have leaf: "iter_children (PyDict []) = Inr []"
    by (simp add: iter_children_def)
  have emit: "emit_text example_env new_document (ustr ''.'') True 2
              = Inr (append_block new_document
                      (Paragraph (ustr ''.'') (ustr ''List Bullet'') (Some (1 / 4))))"
    by (simp add: sink_defs example_defs ustr_def)
  have img: "insert_image example_env d (PyDict []) Map.empty 6 = Inr d" for d
    by (simp add: insert_image_def py_or_def)
  from missing_title_period [OF absent two leaf, of example_env new_document Map.empty 6]
  show ?thesis
    by (auto simp: leaf emit img)
qed

section \<open>The blocks of a tree\<close>

text \<open>
  C2, as stated, speaks of every finite tree.  The walk of a tree of two nodes whose
  second title holds U+FFFF raises \<^verbatim>\<open>ValueError\<close>: the run ends without a document,
  and the second node never gets a block.
\<close>

theorem add_topic_blocks_are_nodes_counterexample:
  "add_topic example_env new_document (branch ''A'' [PyDict unwritable]) Map.empty 1 6
     = Inl ValueError
   \<and> length (topic_nodes (branch ''A'' [PyDict unwritable])) = 2"
proof -
  have kids: "iter_children (PyDict unwritable) = Inr []"
    by (simp add: unwritable_def walk_defs)
  have "project example_env (branch ''A'' [PyDict unwritable]) Map.empty 1 6
        = Inl ValueError"
    by (simp add: branch_def unwritable_def example_env_def walk_defs sink_defs)
  moreover have "length (topic_nodes (branch ''A'' [PyDict unwritable])) = 2"
    by (simp add: branch_nodes children_of_def kids)
  ultimately show ?thesis
    by (simp add: add_topic_project del: project.simps)
qed

text \<open>
  C2, amended.  On a tree the walk gets through (\<open>walkable\<close>), from any level of at
  least 1 (the walk starts at 1), \<^verbatim>\<open>add_topic\<close> completes and appends: the heading or
  bulleted paragraph of the topic, then at most one block of the image step (a
  picture, or the empty paragraph of a rejected one), then for each child in
  \<^verbatim>\<open>iter_children\<close> order the blocks of the walk of that child at \<open>level + 1\<close> with the
  same resources and width.  The headings and bulleted paragraphs among them are as
  many as the nodes of the tree.
\<close>

theorem add_topic_blocks_are_nodes:
  assumes "walkable env level topic" and "1 \<le> level"
  shows
    "\<exists>b ps. is_node_block b \<and> list_all (\<lambda>p. \<not> is_node_block p) ps \<and> length ps \<le> 1
       \<and> emitted env topic assets level w =
           b # ps @ concat (map (\<lambda>c. emitted env c assets (level + 1) w) (children_of topic))
       \<and> add_topic env document topic assets level w =
           Inr (append_blocks document (emitted env topic assets level w))
       \<and> (\<forall>c \<in> set (children_of topic). \<forall>d.
             add_topic env d c assets (level + 1) w =
               Inr (append_blocks d (emitted env c assets (level + 1) w)))
       \<and> length (filter is_node_block (emitted env topic assets level w))
           = length (topic_nodes topic)"
proof -
  from assms(1) obtain kvs where dict: "topic = PyDict kvs"
    by (auto dest: walkable_is_dict)
  from project_unfold [OF assms [unfolded dict], of assets w]
  obtain b ps where b: "is_node_block b"
    and ps: "picture_blocks env topic assets w = Inr ps"
    and out: "project env topic assets level w =
                Inr (b # ps @ concat (map (\<lambda>c. emitted env c assets (level + 1) w)
                                       (children_of topic)))"
    unfolding dict by (auto dest: text_block_node)
  note aside = picture_blocks_aside(1,2) [OF ps]
  have run: "add_topic env d t assets l w = Inr (append_blocks d (emitted env t assets l w))"
    if "walkable env l t" and "1 \<le> l" for d t l
    using project_walkable [OF that, of assets w]
    by (auto simp: add_topic_project emitted_def)
  have kids: "\<forall>c \<in> set (children_of topic). \<forall>d.
                add_topic env d c assets (level + 1) w =
                  Inr (append_blocks d (emitted env c assets (level + 1) w))"
    using assms by (auto simp: dict walkable_dict simp del: walkable.simps intro!: run)
  from out have "emitted env topic assets level w =
      b # ps @ concat (map (\<lambda>c. emitted env c assets (level + 1) w) (children_of topic))"
    by (simp add: emitted_def)
  with b aside run [OF assms] kids emitted_count [OF assms, of assets w] show ?thesis
    by blast
qed

theorem add_topic_blocks_are_nodes_witness:
  "walkable example_env 1 (PyDict example_root) \<and> (1::int) \<le> 1
   \<and> add_topic example_env new_document (PyDict example_root) Map.empty 1 6 =
       Inr (append_blocks new_document
             [Heading 1 (ustr ''A''),
              Paragraph (ustr ''B'') (ustr ''List Bullet'') (Some (1 / 4)),
              Heading 2 (ustr ''C''),
              Paragraph (ustr ''D'') (ustr ''List Bullet'') (Some (1 / 2))])
   \<and> length (filter is_node_block (emitted example_env (PyDict example_root) Map.empty 1 6)) = 4
   \<and> length (topic_nodes (PyDict example_root)) = 4"
proof -
  have one: "(1::int) \<le> 1"
    by simp
  from add_topic_blocks_are_nodes [OF example_walkable one, of Map.empty 6 new_document]
  have "add_topic example_env new_document (PyDict example_root) Map.empty 1 6 =
          Inr (append_blocks new_document
                (emitted example_env (PyDict example_root) Map.empty 1 6))"
    and "length (filter is_node_block
                  (emitted example_env (PyDict example_root) Map.empty 1 6))
         = length (topic_nodes (PyDict example_root))"
    by blast+
  then show ?thesis
    using example_walkable by (simp add: example_emitted example_nodes)
qed

text \<open>
  C7.  When the image source of a topic is a string that the resource mapping does
  not hold, or the sniffed format is not one of png, jpeg, bmp and gif, or sniffing
  or \<^verbatim>\<open>add_picture\<close> raises, the image step raises nothing and embeds no picture.  It
  leaves the document as it is, except when it was \<^verbatim>\<open>add_picture\<close> that raised: then the
  empty paragraph python-docx had made for the picture stays.  On a tree the walk
  gets through, the walk completes with the heading or bulleted paragraph of the
  topic, that empty paragraph if there is one, and the blocks of the children.
\<close>

theorem image_skipped:
  assumes "py_get (PyDict kvs) (ustr ''image'') PyNone = Inr img"
    and "py_get (py_or img (PyDict [])) (ustr ''src'') PyNone = Inr (PyStr src)"
    and "case assets src of
           None \<Rightarrow> True
         | Some data \<Rightarrow>
             (case imghdr_what env data of
                Inl e \<Rightarrow> True
              | Inr kind \<Rightarrow>
                  kind \<notin> set (map Some supported_kinds) \<or> add_picture_raises env data w)"
  shows
    "\<exists>ps. list_all (\<lambda>p. \<not> is_picture p \<and> \<not> is_node_block p) ps
       \<and> (ps = [] \<or> (ps = [Paragraph [] (ustr ''Normal'') None]
                      \<and> (\<exists>data. assets src = Some data \<and> add_picture_raises env data w)))
       \<and> (\<forall>d. insert_image env d (PyDict kvs) assets w = Inr (append_blocks d ps))
       \<and> (1 \<le> level \<and> walkable env level (PyDict kvs) \<longrightarrow>
            (\<exists>b. is_node_block b
               \<and> add_topic env document (PyDict kvs) assets level w =
                   Inr (append_blocks document
                         (b # ps @ concat (map (\<lambda>c. emitted env c assets (level + 1) w)
                                            (children_of (PyDict kvs)))))))"
proof -
  from assms have "\<exists>ps. picture_blocks env (PyDict kvs) assets w = Inr ps
      \<and> (ps = [] \<or> (ps = [Paragraph [] (ustr ''Normal'') None]
                  \<and> (\<exists>data. assets src = Some data \<and> add_picture_raises env data w)))"
    by (auto simp: picture_blocks_def insert_image_def embed_def add_picture_def
        append_block_def new_document_def
        split: option.splits sum.splits if_splits)
  then obtain ps where ps: "picture_blocks env (PyDict kvs) assets w = Inr ps"
    and shape: "ps = [] \<or> (ps = [Paragraph [] (ustr ''Normal'') None]
                  \<and> (\<exists>data. assets src = Some data \<and> add_picture_raises env data w))"
    by blast
  from shape have aside: "list_all (\<lambda>p. \<not> is_picture p \<and> \<not> is_node_block p) ps"
    by (auto simp: ustr_def)
  from ps have step: "\<forall>d. insert_image env d (PyDict kvs) assets w = Inr (append_blocks d ps)"
    by (simp add: insert_image_frame)
  have "\<exists>b. is_node_block b
      \<and> add_topic env document (PyDict kvs) assets level w =
          Inr (append_blocks document
                (b # ps @ concat (map (\<lambda>c. emitted env c assets (level + 1) w)
                                   (children_of (PyDict kvs)))))"
    if "1 \<le> level" and "walkable env level (PyDict kvs)"
  proof -
    from ps project_unfold [OF that(2,1), of assets w]
    obtain b where "is_node_block b"
      and "project env (PyDict kvs) assets level w =
             Inr (b # ps @ concat (map (\<lambda>c. emitted env c assets (level + 1) w)
                                    (children_of (PyDict kvs))))"
      by (auto dest: text_block_node)
    then show ?thesis
      by (auto simp: add_topic_project simp del: project.simps)
  qed
  with aside shape step show ?thesis
    by blast
qed

theorem image_skipped_witness:
  "py_get (PyDict pictured) (ustr ''image'') PyNone
       = Inr (PyDict [(ustr ''src'', PyStr (ustr ''xap:resources/p.png''))])
   \<and> pictured_assets (ustr ''xap:resources/p.png'') = Some png_signature
   \<and> imghdr_what rejecting_env png_signature = Inr (Some (ustr ''png''))
   \<and> add_picture_raises rejecting_env png_signature 6
   \<and> (1::int) \<le> 1 \<and> walkable rejecting_env 1 (PyDict pictured)
   \<and> add_topic rejecting_env new_document (PyDict pictured) pictured_assets 1 6
       = Inr (append_blocks new_document
               [Heading 1 (ustr ''P''), Paragraph [] (ustr ''Normal'') None])
   \<and> Map.empty (ustr ''xap:resources/p.png'') = (None :: bytes option)
   \<and> walkable example_env 1 (PyDict pictured)
   \<and> add_topic example_env new_document (PyDict pictured) Map.empty 1 6
       = Inr (append_blocks new_document [Heading 1 (ustr ''P'')])"
proof -
  have one: "(1::int) \<le> 1"
    by simp
  have img: "py_get (PyDict pictured) (ustr ''image'') PyNone
             = Inr (PyDict [(ustr ''src'', PyStr (ustr ''xap:resources/p.png''))])"
    by (simp add: pictured_def ustr_def)
  have src: "py_get (py_or (PyDict [(ustr ''src'', PyStr (ustr ''xap:resources/p.png''))])
                      (PyDict [])) (ustr ''src'') PyNone
             = Inr (PyStr (ustr ''xap:resources/p.png''))"
    by (simp add: py_or_def)
  have held: "pictured_assets (ustr ''xap:resources/p.png'') = Some png_signature"
    by (simp add: pictured_assets_def)
  have sniffed: "imghdr_what rejecting_env png_signature = Inr (Some (ustr ''png''))"
    and rejected: "add_picture_raises rejecting_env png_signature 6"
    by (simp_all add: rejecting_env_def)
  have skip: "case pictured_assets (ustr ''xap:resources/p.png'') of
                None \<Rightarrow> True
              | Some data \<Rightarrow>
                  (case imghdr_what rejecting_env data of
                     Inl e \<Rightarrow> True
                   | Inr kind \<Rightarrow>
                       kind \<notin> set (map Some supported_kinds)
                       \<or> add_picture_raises rejecting_env data 6)"
    by (simp add: held sniffed rejected)
  have gone: "Map.empty (ustr ''xap:resources/p.png'') = (None :: bytes option)"
    by simp
  have absent: "case Map.empty (ustr ''xap:resources/p.png'') of
                  None \<Rightarrow> True
                | Some data \<Rightarrow>
                    (case imghdr_what example_env data of
                       Inl e \<Rightarrow> True
                     | Inr kind \<Rightarrow>
                         kind \<notin> set (map Some supported_kinds)
                         \<or> add_picture_raises example_env data 6)"
    by simp
  have kids: "children_of (PyDict pictured) = []"
    by (simp add: children_of_def pictured_children)
  have stray: "insert_image rejecting_env new_document (PyDict pictured) pictured_assets 6
               = Inr (append_blocks new_document [Paragraph [] (ustr ''Normal'') None])"
    using pictured_stray by (simp add: insert_image_frame)
  have head: "text_block env (ustr ''P'') True 1 = Inr (Heading 1 (ustr ''P''))" for env
    by (simp add: sink_defs ustr_def)
  have title: "topic_title env (PyDict pictured) = Inr (ustr ''P'')" for env
    by (simp add: pictured_def walk_defs)
  have block: "b = Heading 1 (ustr ''P'')"
    if "add_topic env new_document (PyDict pictured) assets 1 6
        = Inr (append_blocks new_document (b # ps))" for env assets b ps
    using that
    by (simp add: pictured_children title head emit_text_frame insert_image_frame
        map_sum_def append_blocks_def new_document_def
        split: sum.splits)
  from image_skipped [where env = rejecting_env and level = 1 and kvs = pictured
      and assets = pictured_assets and w = 6 and document = new_document,
      OF img src skip] one pictured_walkable [of rejecting_env 1]
  obtain ps b where "insert_image rejecting_env new_document (PyDict pictured) pictured_assets 6
                     = Inr (append_blocks new_document ps)"
    and walk: "add_topic rejecting_env new_document (PyDict pictured) pictured_assets 1 6
               = Inr (append_blocks new_document (b # ps))"
    unfolding kids by auto
  with stray have ps: "ps = [Paragraph [] (ustr ''Normal'') None]"
    by (simp add: append_blocks_def new_document_def)
  from walk block [OF walk] ps
  have first: "add_topic rejecting_env new_document (PyDict pictured) pictured_assets 1 6
      = Inr (append_blocks new_document
              [Heading 1 (ustr ''P''), Paragraph [] (ustr ''Normal'') None])"
    by simp
  from image_skipped [where env = example_env and level = 1 and kvs = pictured
      and assets = Map.empty and w = 6 and document = new_document,
      OF img src absent] one pictured_walkable [of example_env 1]
  obtain ps' b' where none: "ps' = []"
    and walk': "add_topic example_env new_document (PyDict pictured) Map.empty 1 6
                = Inr (append_blocks new_document (b' # ps'))"
    unfolding kids by auto
  from walk' block [OF walk'] none
  have second: "add_topic example_env new_document (PyDict pictured) Map.empty 1 6
      = Inr (append_blocks new_document [Heading 1 (ustr ''P'')])"
    by simp
  from img held sniffed rejected one pictured_walkable [of rejecting_env 1] first gone
    pictured_walkable [of example_env 1] second
  show ?thesis
    by (intro conjI) assumption+
qed

text \<open>
  C10, as stated, has the walk return a document whatever the depth.  Every level of
  the tree is a frame of the interpreter: on a chain of 1001 topics, with the default
  limit of 1000 frames, the walk raises \<^verbatim>\<open>RecursionError\<close>.
\<close>

theorem add_topic_terminates_counterexample:
  "add_topic example_env new_document (chain 1000) Map.empty 1 6 = Inl RecursionError"
proof -
  have "recursion_limit example_env = 1000"
    by (simp add: example_env_def)
  then have "project example_env (chain 1000) Map.empty 1 6 = Inl RecursionError"
    by (intro chain_overflow) simp_all
  then show ?thesis
    by (simp add: add_topic_project)
qed

text \<open>
  C10, amended.  Every call of \<^verbatim>\<open>add_topic\<close> terminates, whatever the depth and the
  branching: each recursive call is on a child that \<^verbatim>\<open>iter_children\<close> yields, and every
  such child is strictly smaller than its parent.  It terminates with a document or
  with an exception: from a level of at least 1 it returns a document exactly on the
  trees the walk gets through (every node a dict whose children and image source can
  be read and whose title the sink can write, and no node below the level the
  interpreter's recursion limit allows), and raises on the others.
\<close>

theorem add_topic_terminates:
  "add_topic_dom (env, document, topic, assets, level, w)
   \<and> (\<forall>children child. iter_children topic = Inr children \<longrightarrow> child \<in> set children
         \<longrightarrow> size child < size topic)
   \<and> (1 \<le> level \<longrightarrow>
         (walkable env level topic
          \<longleftrightarrow> (\<exists>d. add_topic env document topic assets level w = Inr d)))"
proof -
  have "All add_topic_dom"
    by (relation "measure (\<lambda>(env, document, topic, assets, level, w). size topic)")
      (auto dest: iter_children_size)
  moreover have "\<exists>d. add_topic env document topic assets level w = Inr d"
    if "walkable env level topic" and "1 \<le> level"
    using project_walkable [OF that, of assets w] by (auto simp: add_topic_project)
  moreover have "walkable env level topic"
    if "add_topic env document topic assets level w = Inr d" for d
    using that
    by (cases "project env topic assets level w")
      (auto simp: add_topic_project dest: project_only_walkable)
  ultimately show ?thesis
    by (auto dest: iter_children_size)
qed

theorem add_topic_terminates_witness:
  "add_topic_dom (example_env, new_document, PyDict example_root, Map.empty, 1, 6)
   \<and> size (leaf ''B'') < size (PyDict example_root)
   \<and> walkable example_env 1 (PyDict example_root)
   \<and> (\<exists>d. add_topic example_env new_document (PyDict example_root) Map.empty 1 6 = Inr d)"
proof -
  have one: "(1::int) \<le> 1"
    by simp
  have "leaf ''B'' \<in> set [leaf ''B'', branch ''C'' [leaf ''D'']]"
    by simp
  with add_topic_terminates [of example_env new_document "PyDict example_root" Map.empty 1 6]
    example_children example_walkable one
  show ?thesis
    by blast
qed

section \<open>The table of contents\<close>

text \<open>
  C8.  With the same file and settings, the run without \<^verbatim>\<open>--no-toc\<close> ends as the run
  with it does (the same exception, the same exit code), or saves the same document
  with one block more in front: the field paragraph whose instruction is
  \<^verbatim>\<open>TOC \o "1-3" \h \z \u\<close>.  The document of the run with \<^verbatim>\<open>--no-toc\<close> holds no field
  paragraph, so the other document holds exactly that one, and its other blocks are
  the same blocks in the same order.
\<close>

theorem no_toc_drops_only_the_field:
  "main env path False img_width =
     (case main env path True img_width of
        Inl e \<Rightarrow> Inl e
      | Inr (Exit code) \<Rightarrow> Inr (Exit code)
      | Inr (Saved d) \<Rightarrow> Inr (Saved (d\<lparr>body := FieldParagraph toc_instr # body d\<rparr>)))
   \<and> (\<forall>d. main env path True img_width = Inr (Saved d) \<longrightarrow>
         filter is_field (body d) = []
         \<and> filter (\<lambda>b. \<not> is_field b) (FieldParagraph toc_instr # body d) = body d
         \<and> filter is_field (FieldParagraph toc_instr # body d) = [FieldParagraph toc_instr])
   \<and> toc_instr = [84, 79, 67, 32, 92, 111, 32, 34, 49, 45, 51, 34, 32, 92, 104, 32, 92, 122,
                   32, 92, 117]"
proof -
  have step: "main env path False img_width =
     (case main env path True img_width of
        Inl e \<Rightarrow> Inl e
      | Inr (Exit code) \<Rightarrow> Inr (Exit code)
      | Inr (Saved d) \<Rightarrow> Inr (Saved (d\<lparr>body := FieldParagraph toc_instr # body d\<rparr>)))"
    by (simp add: main_def build_document_toc split: sum.splits prod.splits)
  have plain: "filter is_field (body d) = []
               \<and> filter (\<lambda>b. \<not> is_field b) (body d) = body d"
    if "main env path True img_width = Inr (Saved d)" for d
    using that
    by (auto simp: main_def split: sum.splits prod.splits if_splits dest: build_document_plain)
  have "toc_instr = [84, 79, 67, 32, 92, 111, 32, 34, 49, 45, 51, 34, 32, 92, 104, 32,
                     92, 122, 32, 92, 117]"
    by (simp add: toc_instr_def ustr_def)
  with step plain show ?thesis
    by simp
qed

theorem no_toc_drops_only_the_field_witness:
  "main reading_env (ustr ''map.xmind'') True 6 =
     Inr (Saved \<lparr>core_title = ustr ''A'',
                 body = [Heading 1 (ustr ''A''),
                         Paragraph (ustr ''B'') (ustr ''List Bullet'') (Some (1 / 4)),
                         Heading 2 (ustr ''C''),
                         Paragraph (ustr ''D'') (ustr ''List Bullet'') (Some (1 / 2))]\<rparr>)
   \<and> main reading_env (ustr ''map.xmind'') False 6 =
     Inr (Saved \<lparr>core_title = ustr ''A'',
                 body = [FieldParagraph toc_instr,
                         Heading 1 (ustr ''A''),
                         Paragraph (ustr ''B'') (ustr ''List Bullet'') (Some (1 / 4)),
                         Heading 2 (ustr ''C''),
                         Paragraph (ustr ''D'') (ustr ''List Bullet'') (Some (1 / 2))]\<rparr>)"
proof -
  have title: "py_get (PyDict example_root) (ustr ''title'') (PyStr (ustr ''XMind''))
               = Inr (PyStr (ustr ''A''))"
    by (simp add: example_root_def ustr_def)
  have "build_document reading_env True (PyDict example_root) assets 6 =
     Inr \<lparr>core_title = ustr ''A'',
          body = [Heading 1 (ustr ''A''),
                  Paragraph (ustr ''B'') (ustr ''List Bullet'') (Some (1 / 4)),
                  Heading 2 (ustr ''C''),
                  Paragraph (ustr ''D'') (ustr ''List Bullet'') (Some (1 / 2))]\<rparr>" for assets
    unfolding build_document_def title
    by (simp add: add_topic_project reading_emitted new_document_def append_blocks_def str_def
        set_core_title_def xml_compatible_def xml_char_def ustr_def
        del: project.simps)
  then have without: "main reading_env (ustr ''map.xmind'') True 6 =
     Inr (Saved \<lparr>core_title = ustr ''A'',
                 body = [Heading 1 (ustr ''A''),
                         Paragraph (ustr ''B'') (ustr ''List Bullet'') (Some (1 / 4)),
                         Heading 2 (ustr ''C''),
                         Paragraph (ustr ''D'') (ustr ''List Bullet'') (Some (1 / 2))]\<rparr>)"
    by (simp add: main_def reading_parse)
  with no_toc_drops_only_the_field [of reading_env "ustr ''map.xmind''" 6]
  show ?thesis
    by simp
qed

end
